theory Spec2Isabelle
  imports Complex_Main
begin

section \<open>Rhyme Lab: a shallow embedding of the rhyme engines\<close>

text \<open>
  The repository ships several builds of one rhyme detector. Two of them are modelled here:
  the minimal engine (top-level functions \<open>wordToPhones\<close>, \<open>getRhymeTail\<close>,
  \<open>scoreRhyme\<close>, \<open>analyzeText\<close>) and the full engine of \<open>main.js\<close> (class
  \<open>RhymeAnalyzer\<close>). Names of the minimal engine that clash with the full engine carry the
  prefix \<open>min_\<close>.

  Conventions of the embedding.
  \<^item> A JavaScript string is a \<open>string\<close>; every \<open>char\<close> stands for one code unit below 256.
    \<open>toLowerCase\<close> is modelled on the letters A to Z, which is all the engines ever apply it
    to after tokenising (tokens consist of ASCII letters and apostrophes).
  \<^item> JavaScript numbers that hold scores, distances and thresholds are modelled as exact
    rationals; counters and indices are natural numbers.
  \<^item> \<open>null\<close> and \<open>undefined\<close> are \<open>None\<close>; a raised \<open>TypeError\<close> is the value
    \<open>Inl TypeError\<close>.
\<close>

subsection \<open>Strings\<close>

abbreviation apostrophe :: char where "apostrophe \<equiv> CHR 0x27"
abbreviation backslash :: char where "backslash \<equiv> CHR 0x5C"
abbreviation newline :: char where "newline \<equiv> CHR 0x0A"

definition isUpper :: "char \<Rightarrow> bool" where
  "isUpper c = (65 \<le> (of_char c :: nat) \<and> (of_char c :: nat) \<le> 90)"

definition isLower :: "char \<Rightarrow> bool" where
  "isLower c = (97 \<le> (of_char c :: nat) \<and> (of_char c :: nat) \<le> 122)"

definition isDigit :: "char \<Rightarrow> bool" where
  "isDigit c = (48 \<le> (of_char c :: nat) \<and> (of_char c :: nat) \<le> 57)"

definition isLetter :: "char \<Rightarrow> bool" where
  "isLetter c = (isUpper c \<or> isLower c)"

text \<open>The regular-expression class \<open>\w\<close>: letters, digits and the underscore.\<close>

definition isWordChar :: "char \<Rightarrow> bool" where
  "isWordChar c = (isLetter c \<or> isDigit c \<or> c = CHR ''_'')"

text \<open>The class \<open>[A-Za-z']\<close> of both tokenisers.\<close>

definition isTokenChar :: "char \<Rightarrow> bool" where
  "isTokenChar c = (isLetter c \<or> c = apostrophe)"

definition lowerChar :: "char \<Rightarrow> char" where
  "lowerChar c = (if isUpper c then char_of ((of_char c :: nat) + 32) else c)"

definition toLowerCase :: "string \<Rightarrow> string" where
  "toLowerCase s = map lowerChar s"

text \<open>\<open>Array.prototype.join\<close>.\<close>

fun join :: "string \<Rightarrow> string list \<Rightarrow> string" where
  "join sep [] = []"
| "join sep [x] = x"
| "join sep (x # y # ys) = x @ sep @ join sep (y # ys)"

text \<open>
  \<open>String.prototype.split\<close> with a non-empty string separator: the pieces between the
  non-overlapping occurrences of the separator, found left to right. The accumulator holds
  the current piece.
\<close>

fun split_acc :: "string \<Rightarrow> string \<Rightarrow> string \<Rightarrow> string list" where
  "split_acc sep acc [] = [acc]"
| "split_acc sep acc (c # cs) =
     (if sep \<noteq> [] \<and> take (length sep) (c # cs) = sep
      then acc # split_acc sep [] (drop (length sep - 1) cs)
      else split_acc sep (acc @ [c]) cs)"

definition split :: "string \<Rightarrow> string \<Rightarrow> string list" where
  "split sep s = split_acc sep [] s"

text \<open>\<open>String.prototype.indexOf(word, from)\<close>; \<open>-1\<close> when the word does not occur.\<close>

fun indexOf_loop :: "string \<Rightarrow> string \<Rightarrow> nat \<Rightarrow> nat \<Rightarrow> int" where
  "indexOf_loop s w i 0 = (if take (length w) (drop i s) = w then int i else - 1)"
| "indexOf_loop s w i (Suc k) =
     (if take (length w) (drop i s) = w then int i else indexOf_loop s w (Suc i) k)"

definition indexOf :: "string \<Rightarrow> string \<Rightarrow> nat \<Rightarrow> int" where
  "indexOf s w from = (if from > length s then (if w = [] then int (length s) else - 1)
                       else indexOf_loop s w from (length s - from))"

subsection \<open>Phonetic tables shared by the builds\<close>

definition ARPA_VOWELS :: "string list" where
  "ARPA_VOWELS = [''AA'', ''AE'', ''AH'', ''AO'', ''AW'', ''AY'', ''EH'', ''ER'', ''EY'',
                  ''IH'', ''IY'', ''OW'', ''OY'', ''UH'', ''UW'']"

definition VOWEL_CLASSES :: "(string \<times> string) list" where
  "VOWEL_CLASSES = [(''IY'', ''EE''), (''IH'', ''I''), (''EH'', ''E''), (''AE'', ''A''),
                    (''AA'', ''AH''), (''AH'', ''UH''), (''AO'', ''OR''), (''OW'', ''O''),
                    (''UH'', ''U''), (''UW'', ''OO''), (''EY'', ''AY''), (''AY'', ''EYE''),
                    (''OY'', ''OY''), (''AW'', ''OW''), (''ER'', ''ER'')]"

text \<open>
  The tables are plain objects, so a lookup with the name of a member of
  \<open>Object.prototype\<close> finds that inherited member instead of \<open>undefined\<close>.
\<close>

definition Object_prototype_names :: "string list" where
  "Object_prototype_names = [''constructor'', ''__defineGetter__'', ''__defineSetter__'',
     ''hasOwnProperty'', ''__lookupGetter__'', ''__lookupSetter__'', ''isPrototypeOf'',
     ''propertyIsEnumerable'', ''toString'', ''valueOf'', ''__proto__'', ''toLocaleString'']"

datatype jsval = JUndefined | JString string | JInherited string

definition VOWEL_CLASSES_get :: "string \<Rightarrow> jsval" where
  "VOWEL_CLASSES_get p =
     (case map_of VOWEL_CLASSES p of
        Some v \<Rightarrow> JString v
      | None \<Rightarrow> if p \<in> set Object_prototype_names then JInherited p else JUndefined)"

datatype error = TypeError

section \<open>The minimal engine\<close>

definition min_CUSTOM_ARPA :: "(string \<times> string list) list" where
  "min_CUSTOM_ARPA =
    [(''ya'', [''Y'', ''AA1'']),
     (''gonna'', [''G'', ''AH1'', ''N'', ''AH0'']),
     (''wanna'', [''W'', ''AA1'', ''N'', ''AH0'']),
     (''ain't'', [''EY1'', ''N'', ''T'']),
     (''bruh'', [''B'', ''R'', ''AH1'']),
     (''nah'', [''N'', ''AA1'']),
     (''yo'', [''Y'', ''OW1'']),
     (''playin'' @ [apostrophe], [''P'', ''L'', ''EY1'', ''IH0'', ''N'']),
     (''playin'', [''P'', ''L'', ''EY1'', ''IH0'', ''N'']),
     (''puttin'' @ [apostrophe], [''P'', ''UH1'', ''T'', ''IH0'', ''N'']),
     (''puttin'', [''P'', ''UH1'', ''T'', ''IH0'', ''N'']),
     (''messin'' @ [apostrophe], [''M'', ''EH1'', ''S'', ''IH0'', ''N'']),
     (''messin'', [''M'', ''EH1'', ''S'', ''IH0'', ''N'']),
     (''comin'' @ [apostrophe], [''K'', ''AH1'', ''M'', ''IH0'', ''N'']),
     (''comin'', [''K'', ''AH1'', ''M'', ''IH0'', ''N'']),
     (''swimmin'' @ [apostrophe], [''S'', ''W'', ''IH1'', ''M'', ''IH0'', ''N'']),
     (''swimmin'', [''S'', ''W'', ''IH1'', ''M'', ''IH0'', ''N'']),
     (''sittin'' @ [apostrophe], [''S'', ''IH1'', ''T'', ''IH0'', ''N'']),
     (''sittin'', [''S'', ''IH1'', ''T'', ''IH0'', ''N''])]"

definition min_consonantMap :: "(char \<times> string) list" where
  "min_consonantMap =
    [(CHR ''b'', ''B''), (CHR ''c'', ''K''), (CHR ''d'', ''D''), (CHR ''f'', ''F''),
     (CHR ''g'', ''G''), (CHR ''h'', ''HH''), (CHR ''j'', ''JH''), (CHR ''k'', ''K''),
     (CHR ''l'', ''L''), (CHR ''m'', ''M''), (CHR ''n'', ''N''), (CHR ''p'', ''P''),
     (CHR ''r'', ''R''), (CHR ''s'', ''S''), (CHR ''t'', ''T''), (CHR ''v'', ''V''),
     (CHR ''w'', ''W''), (CHR ''z'', ''Z'')]"

definition min_vowelOf :: "char \<Rightarrow> string" where
  "min_vowelOf ch = (if ch = CHR ''a'' then ''AE'' else if ch = CHR ''e'' then ''EH''
                     else if ch = CHR ''i'' then ''IH'' else if ch = CHR ''o'' then ''AO''
                     else if ch = CHR ''u'' then ''AH'' else ''IH'')"

text \<open>The letter loop of \<open>wordToPhones\<close>; the flag records that a vowel has been seen.\<close>

fun min_letters :: "string \<Rightarrow> bool \<Rightarrow> string list" where
  "min_letters [] stressed = []"
| "min_letters (ch # cs) stressed =
     (if ch \<in> set ''aeiouy''
      then (min_vowelOf ch @ (if \<not> stressed then ''1'' else ''0'')) # min_letters cs True
      else (case map_of min_consonantMap ch of
              Some p \<Rightarrow> p # min_letters cs stressed
            | None \<Rightarrow> min_letters cs stressed))"

definition min_clean :: "string \<Rightarrow> string" where
  "min_clean word = filter (\<lambda>c. isWordChar c \<or> c = apostrophe) (toLowerCase word)"

text \<open>
  \<open>wordToPhones\<close> returns \<open>CUSTOM_ARPA[cleaned]\<close> whenever that is truthy. For a cleaned
  word that names a member of \<open>Object.prototype\<close> the value returned is that member, not an
  array, and its first use as a phoneme list (in \<open>getRhymeTail\<close>) raises a
  \<open>TypeError\<close>; the model reports the error here.
\<close>

definition min_wordToPhones :: "string \<Rightarrow> error + string list" where
  "min_wordToPhones word =
     (let cleaned = min_clean word in
      case map_of min_CUSTOM_ARPA cleaned of
        Some ps \<Rightarrow> Inr ps
      | None \<Rightarrow> if cleaned \<in> set Object_prototype_names then Inl TypeError
                else Inr (min_letters cleaned False))"

text \<open>\<open>p.replace(/[0-2]$/, '')\<close>: one trailing stress digit is removed.\<close>

definition stripStress :: "string \<Rightarrow> string" where
  "stripStress p = (if p \<noteq> [] \<and> last p \<in> set ''012'' then butlast p else p)"

definition min_isVowel :: "string \<Rightarrow> bool" where
  "min_isVowel p = (stripStress p \<in> set ARPA_VOWELS)"

text \<open>
  The loop of \<open>getRhymeTail\<close> runs \<open>i\<close> from the last index down to 0; the counter of the
  model is \<open>i + 1\<close>.
\<close>

fun getRhymeTail_loop :: "string list \<Rightarrow> nat \<Rightarrow> string list option" where
  "getRhymeTail_loop phones 0 = None"
| "getRhymeTail_loop phones (Suc i) =
     (if min_isVowel (phones ! i) then Some (drop i phones)
      else getRhymeTail_loop phones i)"

definition getRhymeTail :: "string list \<Rightarrow> string list" where
  "getRhymeTail phones =
     (case getRhymeTail_loop phones (length phones) of
        Some t \<Rightarrow> t
      | None \<Rightarrow> drop (length phones - 2) phones)"

definition scoreRhyme_step :: "string list \<Rightarrow> string list \<Rightarrow> nat \<Rightarrow> rat \<Rightarrow> rat" where
  "scoreRhyme_step tail1 tail2 i score =
     (let p1 = stripStress (tail1 ! (length tail1 - 1 - i));
          p2 = stripStress (tail2 ! (length tail2 - 1 - i))
      in if p1 = p2 then score + 1 / (of_nat i + 1)
         else if VOWEL_CLASSES_get p1 = VOWEL_CLASSES_get p2
              then score + (1 / 2) / (of_nat i + 1)
              else score)"

definition scoreRhyme :: "string list \<Rightarrow> string list \<Rightarrow> rat" where
  "scoreRhyme tail1 tail2 =
     (if tail1 = [] \<or> tail2 = [] then 0
      else if join '' '' tail1 = join '' '' tail2 then 1
      else min (95 / 100)
             (fold (scoreRhyme_step tail1 tail2)
                   [0 ..< min (length tail1) (length tail2)] 0))"

subsection \<open>Tokenising a line with \<open>/\b[A-Za-z']+\b/g\<close>\<close>

text \<open>
  A word boundary lies at position \<open>k\<close> when exactly one of the characters before and
  after it is a \<open>\w\<close> character (the ends of the line count as non-word).
\<close>

definition boundary :: "string \<Rightarrow> nat \<Rightarrow> bool" where
  "boundary line k =
     ((k > 0 \<and> k \<le> length line \<and> isWordChar (line ! (k - 1)))
      \<noteq> (k < length line \<and> isWordChar (line ! k)))"

text \<open>
  A match that starts at \<open>p\<close> takes the longest run of token characters and gives
  characters back until its end is a word boundary: the candidates for the end are
  \<open>p + m\<close>, \<open>p + m - 1\<close>, ..., \<open>p + 1\<close>.
\<close>

fun min_match_end :: "string \<Rightarrow> nat \<Rightarrow> nat \<Rightarrow> nat option" where
  "min_match_end line p 0 = None"
| "min_match_end line p (Suc m) =
     (if boundary line (p + Suc m) then Some (p + Suc m) else min_match_end line p m)"

definition min_match_at :: "string \<Rightarrow> nat \<Rightarrow> nat option" where
  "min_match_at line p =
     (if boundary line p
      then min_match_end line p (length (takeWhile isTokenChar (drop p line)))
      else None)"

lemma min_match_end_gt: "min_match_end line p m = Some e \<Longrightarrow> p < e"
  by (induction m) (auto split: if_splits)

lemma min_match_at_gt: "min_match_at line p = Some e \<Longrightarrow> p < e"
  by (auto simp: min_match_at_def split: if_splits dest: min_match_end_gt)

text \<open>
  The global search: after a match the search resumes at its end, otherwise one position
  further. The result lists the matches as (start, end) positions.
\<close>

function min_matches :: "string \<Rightarrow> nat \<Rightarrow> (nat \<times> nat) list" where
  "min_matches line p =
     (if length line \<le> p then []
      else (case min_match_at line p of
              Some e \<Rightarrow> (p, e) # min_matches line e
            | None \<Rightarrow> min_matches line (Suc p)))"
  by pat_completeness auto
termination
  by (relation "measure (\<lambda>(line, p). length line - p)")
     (auto dest: min_match_at_gt)

definition min_tokens :: "string \<Rightarrow> string list" where
  "min_tokens line = map (\<lambda>(p, e). take (e - p) (drop p line)) (min_matches line 0)"

subsection \<open>\<open>analyzeText\<close>\<close>

record min_word =
  mw_text :: string
  mw_line :: nat
  mw_start :: int
  mw_end :: int
  mw_phones :: "string list"
  mw_tail :: "string list"

record min_result =
  mr_words :: "min_word list"
  mr_groups :: "nat list list"

text \<open>
  The inner \<open>forEach\<close> over the words of one line: \<open>linePos\<close> is threaded through, the
  first word whose phoneme lookup fails ends the analysis.
\<close>

fun min_lineWords ::
  "string \<Rightarrow> nat \<Rightarrow> int \<Rightarrow> string list \<Rightarrow> int \<Rightarrow> error + min_word list" where
  "min_lineWords line lineIndex globalPos [] linePos = Inr []"
| "min_lineWords line lineIndex globalPos (word # rest) linePos =
     (let wordStart = indexOf line word (nat linePos);
          start = globalPos + wordStart
      in case min_wordToPhones word of
           Inl e \<Rightarrow> Inl e
         | Inr phones \<Rightarrow>
             (case min_lineWords line lineIndex globalPos rest (wordStart + int (length word)) of
                Inl e \<Rightarrow> Inl e
              | Inr ws \<Rightarrow>
                  Inr (\<lparr> mw_text = word, mw_line = lineIndex, mw_start = start,
                         mw_end = start + int (length word), mw_phones = phones,
                         mw_tail = getRhymeTail phones \<rparr> # ws)))"

text \<open>The outer \<open>forEach\<close> over the lines, with \<open>globalPos\<close> threaded through.\<close>

fun min_allWords :: "string list \<Rightarrow> nat \<Rightarrow> int \<Rightarrow> error + min_word list" where
  "min_allWords [] lineIndex globalPos = Inr []"
| "min_allWords (line # rest) lineIndex globalPos =
     (case min_lineWords line lineIndex globalPos (min_tokens line) 0 of
        Inl e \<Rightarrow> Inl e
      | Inr ws \<Rightarrow>
          (case min_allWords rest (Suc lineIndex) (globalPos + int (length line) + 1) of
             Inl e \<Rightarrow> Inl e
           | Inr ws' \<Rightarrow> Inr (ws @ ws')))"

text \<open>
  The inner loop of the grouping, over the candidates \<open>j\<close>: it extends the group of the
  seed \<open>i\<close> and the set of assigned indices.
\<close>

fun min_inner ::
  "min_word list \<Rightarrow> rat \<Rightarrow> nat \<Rightarrow> nat list \<Rightarrow> nat list \<times> nat set \<Rightarrow> nat list \<times> nat set" where
  "min_inner allWords threshold i [] (grp, assigned) = (grp, assigned)"
| "min_inner allWords threshold i (j # js) (grp, assigned) =
     (if j \<in> assigned then min_inner allWords threshold i js (grp, assigned)
      else if scoreRhyme (mw_tail (allWords ! i)) (mw_tail (allWords ! j)) \<ge> threshold
              \<and> toLowerCase (mw_text (allWords ! i)) \<noteq> toLowerCase (mw_text (allWords ! j))
           then min_inner allWords threshold i js (grp @ [j], insert j assigned)
           else min_inner allWords threshold i js (grp, assigned))"

text \<open>The outer loop, over the seeds \<open>i\<close>: groups of fewer than two members are dropped.\<close>

fun min_outer ::
  "min_word list \<Rightarrow> rat \<Rightarrow> nat list \<Rightarrow> nat list list \<times> nat set \<Rightarrow> nat list list \<times> nat set" where
  "min_outer allWords threshold [] (groups, assigned) = (groups, assigned)"
| "min_outer allWords threshold (i # is) (groups, assigned) =
     (if i \<in> assigned then min_outer allWords threshold is (groups, assigned)
      else (let (grp, assigned') =
                  min_inner allWords threshold i [Suc i ..< length allWords]
                            ([i], insert i assigned)
            in min_outer allWords threshold is
                 (if length grp \<ge> 2 then groups @ [grp] else groups, assigned')))"

definition min_groups :: "min_word list \<Rightarrow> rat \<Rightarrow> nat list list" where
  "min_groups allWords threshold =
     fst (min_outer allWords threshold [0 ..< length allWords] ([], {}))"

definition analyzeText :: "string \<Rightarrow> rat \<Rightarrow> error + min_result" where
  "analyzeText txt threshold =
     (case min_allWords (split [newline] txt) 0 0 of
        Inl e \<Rightarrow> Inl e
      | Inr allWords \<Rightarrow>
          Inr \<lparr> mr_words = allWords, mr_groups = min_groups allWords threshold \<rparr>)"

section \<open>The full engine: class \<open>RhymeAnalyzer\<close>\<close>

text \<open>
  The methods are modelled as the source file writes them. After \<open>isLineEnd\<close> the file
  holds three stray lines (a closing brace, \<open>return true;\<close> and a closing brace) that end
  the class body before \<open>buildScheme\<close> and \<open>analyze\<close>; the model reads all methods as
  methods of the class. The regular expressions of \<open>cleanWord\<close> and \<open>normalizePhone\<close>
  and the separator of \<open>split\<close> in \<open>analyze\<close> are written with doubled backslashes;
  they are modelled with the meaning JavaScript gives them.
\<close>

subsection \<open>Tables\<close>

definition CONSONANT_PAIRS :: "(string \<times> string) list" where
  "CONSONANT_PAIRS = [(''S'', ''Z''), (''F'', ''V''), (''T'', ''D''), (''K'', ''G''),
     (''P'', ''B''), (''SH'', ''ZH''), (''CH'', ''JH''), (''TH'', ''DH''), (''M'', ''N'')]"

definition STOP_WORDS :: "string list" where
  "STOP_WORDS = [''the'', ''and'', ''a'', ''an'', ''in'', ''on'', ''of'', ''is'', ''to'',
     ''for'', ''with'', ''that'', ''this'', ''these'', ''those'', ''are'', ''be'', ''i'',
     ''you'', ''he'', ''she'', ''it'', ''we'', ''they'', ''at'', ''from'', ''as'', ''by'',
     ''or'', ''if'', ''then'', ''but'', ''my'', ''me'', ''your'', ''our'', ''their'', ''his'',
     ''her'', ''im'', ''i'm'', ''ya'', [apostrophe] @ ''em'', ''em'', ''ain't'', ''aint'',
     ''uh'', ''yeah'']"

definition CUSTOM_ARPA :: "(string \<times> string list) list" where
  "CUSTOM_ARPA =
    [(''ya'', [''Y'', ''AA1'']), (''yall'', [''Y'', ''AO1'', ''L'']),
     (''y'all'', [''Y'', ''AO1'', ''L'']),
     (''gon'', [''G'', ''AA1'', ''N'']), (''gonna'', [''G'', ''AH1'', ''N'', ''AH0'']),
     (''wanna'', [''W'', ''AA1'', ''N'', ''AH0'']), (''bru'', [''B'', ''R'', ''UW1'']),
     ([apostrophe] @ ''em'', [''AH0'', ''M'']), (''em'', [''AH0'', ''M'']),
     (''lekker'', [''L'', ''EH1'', ''K'', ''ER0'']),
     (''kak'', [''K'', ''AA1'', ''K'']), (''finna'', [''F'', ''IH1'', ''N'', ''AH0'']),
     (''tryna'', [''T'', ''R'', ''AY1'', ''N'', ''AH0'']),
     (''boutta'', [''B'', ''AW1'', ''T'', ''AH0'']),
     (''hella'', [''HH'', ''EH1'', ''L'', ''AH0'']), (''ayy'', [''EY1'']),
     (''bruh'', [''B'', ''R'', ''AH1'']),
     (''nah'', [''N'', ''AA1'']), (''aight'', [''AY1'', ''T'']), (''yo'', [''Y'', ''OW1'']),
     (''wassup'', [''W'', ''AH1'', ''S'', ''AH0'', ''P'']),
     (''whatchu'', [''W'', ''AH1'', ''CH'', ''UW0'']),
     (''cuz'', [''K'', ''AH1'', ''Z'']), (''homie'', [''HH'', ''OW1'', ''M'', ''IY0'']),
     (''thru'', [''TH'', ''R'', ''UW1'']), (''tho'', [''DH'', ''OW1''])]"

definition VOWEL_PATTERNS :: "(string \<times> string) list" where
  "VOWEL_PATTERNS =
    [(''eigh'', ''EY''), (''ough'', ''AO''), (''augh'', ''AO''), (''eau'', ''OW''),
     (''igh'', ''AY''), (''oi'', ''OY''), (''oy'', ''OY''), (''ow'', ''AW''), (''ou'', ''AW''),
     (''ai'', ''EY''), (''ay'', ''EY''), (''ey'', ''EY''), (''ea'', ''IY''), (''ee'', ''IY''),
     (''ie'', ''IY''), (''oa'', ''OW''), (''oo'', ''UW''), (''eu'', ''UW''), (''au'', ''AO''),
     (''aw'', ''AO''), (''ur'', ''ER''), (''ir'', ''ER''), (''er'', ''ER''), (''ar'', ''AA''),
     (''or'', ''AO'')]"

definition CONSONANT_DIGRAPHS :: "(string \<times> string) list" where
  "CONSONANT_DIGRAPHS =
    [(''ch'', ''CH''), (''sh'', ''SH''), (''th'', ''TH''), (''ph'', ''F''), (''wh'', ''W''),
     (''gh'', ''G''), (''ng'', ''NG''), (''qu'', ''KW''), (''ck'', ''K''), (''kn'', ''N''),
     (''wr'', ''R''), (''ps'', ''S'')]"

definition SIMPLE_VOWELS :: "(char \<times> string) list" where
  "SIMPLE_VOWELS = [(CHR ''a'', ''AE''), (CHR ''e'', ''EH''), (CHR ''i'', ''IH''),
     (CHR ''o'', ''AO''), (CHR ''u'', ''AH''), (CHR ''y'', ''IH'')]"

definition CONSONANT_MAP :: "(char \<times> string) list" where
  "CONSONANT_MAP =
    [(CHR ''b'', ''B''), (CHR ''c'', ''K''), (CHR ''d'', ''D''), (CHR ''f'', ''F''),
     (CHR ''g'', ''G''), (CHR ''h'', ''HH''), (CHR ''j'', ''JH''), (CHR ''k'', ''K''),
     (CHR ''l'', ''L''), (CHR ''m'', ''M''), (CHR ''n'', ''N''), (CHR ''p'', ''P''),
     (CHR ''q'', ''K''), (CHR ''r'', ''R''), (CHR ''s'', ''S''), (CHR ''t'', ''T''),
     (CHR ''v'', ''V''), (CHR ''w'', ''W''), (CHR ''x'', ''K''), (CHR ''z'', ''Z'')]"

text \<open>
  \<open>buildConsonantEquivalence\<close> fills a \<open>Map\<close> from each consonant of a pair to the set of
  its partners; a consonant without an entry has no partner.
\<close>

definition buildConsonantEquivalence :: "string \<Rightarrow> string list" where
  "buildConsonantEquivalence =
     fold (\<lambda>(a, b) m. (let m1 = m(a := m a @ [b]) in m1(b := m1 b @ [a])))
          CONSONANT_PAIRS (\<lambda>_. [])"

subsection \<open>Normalising words and phonemes\<close>

text \<open>The white space that \<open>String.prototype.trim\<close> removes, among the code units below 256.\<close>

definition isSpace :: "char \<Rightarrow> bool" where
  "isSpace c = ((of_char c :: nat) \<in> {9, 10, 11, 12, 13, 32, 160})"

definition trim :: "string \<Rightarrow> string" where
  "trim s = rev (dropWhile isSpace (rev (dropWhile isSpace s)))"

text \<open>
  \<open>cleanWord\<close> is \<open>word.toLowerCase().replace(/[^\\w']/g, '').trim()\<close>. In the source
  of the regular expression the class is written with two backslashes, so it is the
  negated class of three characters: the backslash, the letter \<open>w\<close> and the apostrophe.
  Every other character is removed.
\<close>

definition cleanWord :: "string \<Rightarrow> string" where
  "cleanWord word =
     trim (filter (\<lambda>c. c = backslash \<or> c = CHR ''w'' \<or> c = apostrophe) (toLowerCase word))"

text \<open>
  \<open>normalizePhone\<close> is \<open>phone.replace(/\\d/g, '')\<close>. The pattern, again written with two
  backslashes, matches a backslash followed by the letter \<open>d\<close>; every such pair is
  removed, digits stay.
\<close>

fun normalizePhone :: "string \<Rightarrow> string" where
  "normalizePhone (c # d # cs) =
     (if c = backslash \<and> d = CHR ''d'' then normalizePhone cs
      else c # normalizePhone (d # cs))"
| "normalizePhone cs = cs"

text \<open>The test \<open>ARPA_VOWELS.has(this.normalizePhone(phone))\<close>.\<close>

definition isVowelPhone :: "string \<Rightarrow> bool" where
  "isVowelPhone phone = (normalizePhone phone \<in> set ARPA_VOWELS)"

text \<open>\<open>x || y\<close> on strings: the empty string is falsy.\<close>

definition orElse :: "string option \<Rightarrow> string \<Rightarrow> string" where
  "orElse x y = (case x of Some v \<Rightarrow> (if v = [] then y else v) | None \<Rightarrow> y)"

subsection \<open>Grapheme to phoneme\<close>

text \<open>
  The scanning loop of \<open>g2pHeuristic\<close> only looks forward from \<open>i\<close>, so the model recurses
  on the rest of the word from \<open>i\<close> on. A pattern of length \<open>n\<close> that matches at the head
  advances by \<open>n\<close>: the head and \<open>n - 1\<close> more characters (no pattern is empty).
\<close>

fun g2p_loop :: "string \<Rightarrow> bool \<Rightarrow> string list" where
  "g2p_loop [] stressed = []"
| "g2p_loop (ch # cs) stressed =
     (case find (\<lambda>(pattern, phoneme). take (length pattern) (ch # cs) = pattern)
                VOWEL_PATTERNS of
        Some (pattern, phoneme) \<Rightarrow>
          (phoneme @ (if \<not> stressed then ''1'' else ''0''))
            # g2p_loop (drop (length pattern - 1) cs) True
      | None \<Rightarrow>
          (case find (\<lambda>(digraph, phoneme). take (length digraph) (ch # cs) = digraph)
                     CONSONANT_DIGRAPHS of
             Some (digraph, phoneme) \<Rightarrow>
               phoneme # g2p_loop (drop (length digraph - 1) cs) stressed
           | None \<Rightarrow>
               if ch \<in> set ''aeiouy''
               then (orElse (map_of SIMPLE_VOWELS ch) ''AH''
                       @ (if \<not> stressed then ''1'' else ''0''))
                      # g2p_loop cs True
               else (case map_of CONSONANT_MAP ch of
                       Some phoneme \<Rightarrow>
                         (if phoneme \<noteq> [] then phoneme # g2p_loop cs stressed
                          else g2p_loop cs stressed)
                     | None \<Rightarrow> g2p_loop cs stressed)))"

text \<open>The clean-up loop: a phoneme equal to the last one kept is dropped unless it is a vowel.\<close>

fun g2p_dedupe :: "string list \<Rightarrow> string list \<Rightarrow> string list" where
  "g2p_dedupe result [] = result"
| "g2p_dedupe result (phone # rest) =
     (if result = [] \<or> last result \<noteq> phone \<or> isVowelPhone phone
      then g2p_dedupe (result @ [phone]) rest
      else g2p_dedupe result rest)"

definition g2pHeuristic :: "string \<Rightarrow> string list" where
  "g2pHeuristic word =
     g2p_dedupe [] (filter (\<lambda>p. p \<noteq> []) (g2p_loop (toLowerCase word) False))"

text \<open>
  \<open>wordToPhones\<close>. A cleaned word consists of backslashes, \<open>w\<close> and apostrophes, so it is
  never the name of an inherited member of the dictionary object.
\<close>

definition wordToPhones :: "string \<Rightarrow> string list" where
  "wordToPhones word =
     (let cleaned = cleanWord word in
      case map_of CUSTOM_ARPA cleaned of
        Some ps \<Rightarrow> ps
      | None \<Rightarrow> g2pHeuristic cleaned)"

subsection \<open>Syllables\<close>

definition endsWith1 :: "string \<Rightarrow> bool" where
  "endsWith1 phone = (phone \<noteq> [] \<and> last phone = CHR ''1'')"

text \<open>
  The loop of \<open>syllabify\<close> with its three variables: the syllables closed so far, the
  syllable being built and the stress index.
\<close>

fun syllabify_loop ::
  "string list \<Rightarrow> string list list \<Rightarrow> string list \<Rightarrow> nat option
   \<Rightarrow> string list list \<times> string list \<times> nat option" where
  "syllabify_loop [] syllables current stressIndex = (syllables, current, stressIndex)"
| "syllabify_loop (phone # rest) syllables current stressIndex =
     (if isVowelPhone phone
      then (let syllables' = (if current \<noteq> [] then syllables @ [current] else syllables)
            in syllabify_loop rest syllables' [phone]
                 (if endsWith1 phone then Some (length syllables') else stressIndex))
      else syllabify_loop rest syllables (current @ [phone]) stressIndex)"

definition syllabify :: "string list \<Rightarrow> string list list \<times> nat option" where
  "syllabify phones =
     (case syllabify_loop phones [] [] None of
        (syllables, current, stressIndex) \<Rightarrow>
          (let syllables' = (if current \<noteq> [] then syllables @ [current] else syllables)
           in (syllables',
               if stressIndex = None \<and> syllables' \<noteq> [] then Some (length syllables' - 1)
               else stressIndex)))"

subsection \<open>Rhyme keys\<close>

text \<open>
  The table \<open>fold\<close> of \<open>normalizeCoda\<close>. Coda consonants are phoneme codes, never names
  of members of \<open>Object.prototype\<close>, so a consonant outside the table looks up
  \<open>undefined\<close>.
\<close>

definition coda_fold :: "(string \<times> string) list" where
  "coda_fold = [(''Z'', ''S''), (''V'', ''F''), (''D'', ''T''), (''G'', ''K''), (''B'', ''P''),
                (''ZH'', ''SH''), (''JH'', ''CH''), (''DH'', ''TH'')]"

definition normalizeCoda :: "string list \<Rightarrow> string list" where
  "normalizeCoda coda =
     (let result = map (\<lambda>c. orElse (map_of coda_fold (normalizePhone c)) (normalizePhone c)) coda
      in if result \<noteq> [] \<and> last result = ''HH'' then butlast result else result)"

definition vowel_families :: "string list list" where
  "vowel_families = [[''EE'', ''I'', ''E''], [''A'', ''AH'', ''ER'', ''UH''],
                     [''O'', ''OR'', ''OO'', ''U''], [''EYE'', ''OW'', ''OY'', ''AY'']]"

text \<open>The search loop of \<open>getVowelFamily\<close>, from family \<open>i\<close> on; 9 stands for no family.\<close>

fun getVowelFamily_from :: "string list list \<Rightarrow> nat \<Rightarrow> string \<Rightarrow> nat" where
  "getVowelFamily_from [] i vowel = 9"
| "getVowelFamily_from (f # fs) i vowel =
     (if vowel \<in> set f then i else getVowelFamily_from fs (Suc i) vowel)"

definition getVowelFamily :: "string \<Rightarrow> nat" where
  "getVowelFamily vowel = getVowelFamily_from vowel_families 0 vowel"

text \<open>The inner function \<open>extractNucleusAndCoda\<close> of \<open>getRhymeKey\<close>, as its loop.\<close>

fun extract_loop ::
  "string list \<Rightarrow> string option \<Rightarrow> string list \<Rightarrow> string option \<times> string list" where
  "extract_loop [] nucleus coda = (nucleus, coda)"
| "extract_loop (phone # rest) nucleus coda =
     (let base = normalizePhone phone in
      if base \<in> set ARPA_VOWELS
      then extract_loop rest (Some (orElse (map_of VOWEL_CLASSES base) base)) coda
      else if nucleus \<noteq> None then extract_loop rest nucleus (coda @ [base])
      else extract_loop rest nucleus coda)"

definition extractNucleusAndCoda :: "string list \<Rightarrow> string option \<times> string list" where
  "extractNucleusAndCoda syllable = extract_loop syllable None []"

definition weakCodeas :: "string list list" where
  "weakCodeas = [[''S''], [''Z''], [''R''], [''L''], [''T''], [''D''], [''N''], [''M'']]"

text \<open>A string or \<open>null\<close> used as a condition: \<open>null\<close> and the empty string are falsy.\<close>

definition truthy :: "string option \<Rightarrow> bool" where
  "truthy x = (case x of Some v \<Rightarrow> v \<noteq> [] | None \<Rightarrow> False)"

type_synonym rhymeKey = "string \<times> string list"

definition getRhymeKey :: "string list list \<Rightarrow> nat option \<Rightarrow> rhymeKey option" where
  "getRhymeKey syllables stressIndex =
     (if syllables = [] then None
      else
        (let index = (case stressIndex of Some s \<Rightarrow> s | None \<Rightarrow> length syllables - 1);
             clampedIndex = max 0 (min index (length syllables - 1));
             (nucleus, coda) = extractNucleusAndCoda (syllables ! clampedIndex);
             isWeakCoda = (length coda \<le> 1 \<or> coda \<in> set weakCodeas);
             (finalNucleus, finalCoda) =
               (if isWeakCoda \<and> clampedIndex > 0
                then (let (prevNucleus, prevCoda) =
                            extractNucleusAndCoda (syllables ! (clampedIndex - 1))
                      in ((if truthy prevNucleus
                           then Some (orElse prevNucleus [] @ ''+'' @ orElse nucleus [])
                           else nucleus),
                          prevCoda @ coda))
                else (nucleus, coda))
         in if truthy finalNucleus
            then Some (orElse finalNucleus [], normalizeCoda finalCoda)
            else None))"

definition keyPart :: "string \<Rightarrow> string" where
  "keyPart phone =
     (let base = normalizePhone phone in
      if base \<in> set ARPA_VOWELS then orElse (map_of VOWEL_CLASSES base) base else base)"

definition getMultisyllabicKey :: "string list list \<Rightarrow> nat \<Rightarrow> string option" where
  "getMultisyllabicKey syllables tail =
     (if syllables = [] \<or> tail \<le> 0 then None
      else
        (let actualTail = min tail (length syllables);
             keyParts = concat (map (map keyPart) (drop (length syllables - actualTail) syllables))
         in if keyParts \<noteq> [] then Some (join ''-'' keyParts) else None))"

subsection \<open>Distances\<close>

text \<open>\<open>n.split("+").pop() || n\<close>.\<close>

definition finalVowel :: "string \<Rightarrow> string" where
  "finalVowel n = orElse (Some (last (split ''+'' n))) n"

definition nucleusDistance :: "string \<Rightarrow> string \<Rightarrow> rat" where
  "nucleusDistance n1 n2 =
     (if n1 = n2 then 0
      else (let a = finalVowel n1; b = finalVowel n2
            in if a = b then 5 / 100
               else if getVowelFamily a = getVowelFamily b then 25 / 100
               else 6 / 10))"

text \<open>One round of the comparison loop of \<open>codaDistance\<close>, at offset \<open>i\<close> from the end.\<close>

definition codaDistance_step :: "string list \<Rightarrow> string list \<Rightarrow> nat \<Rightarrow> rat \<Rightarrow> rat" where
  "codaDistance_step c1 c2 i mismatches =
     (let a = c1 ! (length c1 - 1 - i); b = c2 ! (length c2 - 1 - i)
      in if a = b \<or> b \<in> set (buildConsonantEquivalence a) then mismatches
         else mismatches + 1)"

definition codaDistance :: "string list \<Rightarrow> string list \<Rightarrow> rat" where
  "codaDistance c1 c2 =
     (if c1 = c2 then 0
      else if c1 = [] \<or> c2 = [] then 6 / 10
      else (let minLength = min (length c1) (length c2);
                mismatches = fold (codaDistance_step c1 c2) [0 ..< minLength] 0;
                mismatches' = mismatches
                              + \<bar>of_nat (length c1) - of_nat (length c2)\<bar> * (5 / 10)
            in min 1 (mismatches' * (35 / 100))))"

definition rhymeDistance :: "rhymeKey \<Rightarrow> rhymeKey \<Rightarrow> rat" where
  "rhymeDistance k1 k2 =
     (7 / 10) * nucleusDistance (fst k1) (fst k2) + (3 / 10) * codaDistance (snd k1) (snd k2)"

subsection \<open>Words and spans\<close>

record word =
  wd_line :: nat
  wd_text :: string
  wd_lower :: string
  wd_phones :: "string list"
  wd_syllables :: "string list list"
  wd_stress :: "nat option"
  wd_position :: nat

record span =
  sp_wordIndex :: nat
  sp_line :: nat
  sp_key :: rhymeKey
  sp_tail :: nat
  sp_multiKeys :: "(nat \<times> string) list"

record settings =
  perfectThreshold :: rat
  slantThreshold :: rat
  showInternalRhymes :: bool
  highlightAssonance :: bool

text \<open>
  \<open>line.matchAll(/[A-Za-z']+/g)\<close>: the maximal runs of token characters, each with the
  index where it starts. The arguments are the rest of the line, the index of its first
  character and the run collected so far.
\<close>

fun main_matches :: "string \<Rightarrow> nat \<Rightarrow> string \<Rightarrow> (string \<times> nat) list" where
  "main_matches [] pos run = (if run = [] then [] else [(run, pos - length run)])"
| "main_matches (c # cs) pos run =
     (if isTokenChar c then main_matches cs (Suc pos) (run @ [c])
      else (if run = [] then [] else [(run, pos - length run)]) @ main_matches cs (Suc pos) [])"

text \<open>The body of the loop over the matches of a line: no word, or one word, is pushed.\<close>

definition makeWord :: "nat \<Rightarrow> string \<times> nat \<Rightarrow> word list" where
  "makeWord lineIndex m =
     (let wtext = fst m; cleaned = cleanWord wtext in
      if cleaned \<in> set STOP_WORDS \<and> length cleaned \<le> 2 then []
      else (let phones = wordToPhones cleaned;
                (syllables, stress) = syllabify phones
            in [\<lparr> wd_line = lineIndex, wd_text = wtext, wd_lower = cleaned,
                   wd_phones = phones, wd_syllables = syllables, wd_stress = stress,
                   wd_position = snd m \<rparr>]))"

definition buildWords :: "string list \<Rightarrow> word list" where
  "buildWords lines =
     concat (map (\<lambda>lineIndex. concat (map (makeWord lineIndex)
                                          (main_matches (lines ! lineIndex) 0 [])))
                 [0 ..< length lines])"

definition multiKeysOf :: "string list list \<Rightarrow> (nat \<times> string) list" where
  "multiKeysOf syllables =
     concat (map (\<lambda>t. case getMultisyllabicKey syllables t of
                         Some multiKey \<Rightarrow> (if multiKey \<noteq> [] then [(t, multiKey)] else [])
                       | None \<Rightarrow> [])
                 [2 ..< min 4 (length syllables + 1)])"

text \<open>The body of the loop that builds the spans: a word without a rhyme key gets none.\<close>

definition makeSpan :: "word list \<Rightarrow> nat \<Rightarrow> span list" where
  "makeSpan words i =
     (let w = words ! i in
      case getRhymeKey (wd_syllables w) (wd_stress w) of
        None \<Rightarrow> []
      | Some key \<Rightarrow>
          (let stressIndex = (case wd_stress w of Some s \<Rightarrow> s
                              | None \<Rightarrow> length (wd_syllables w) - 1);
               tail = max 1 (length (wd_syllables w) - stressIndex)
           in [\<lparr> sp_wordIndex = i, sp_line = wd_line w, sp_key = key, sp_tail = tail,
                  sp_multiKeys = multiKeysOf (wd_syllables w) \<rparr>]))"

definition buildSpans :: "word list \<Rightarrow> span list" where
  "buildSpans words = concat (map (makeSpan words) [0 ..< length words])"

text \<open>\<open>isLineEnd\<close>: its loop returns in the first round, on the next word if there is one.\<close>

definition isLineEnd :: "nat \<Rightarrow> word list \<Rightarrow> bool" where
  "isLineEnd wordIndex words =
     (case drop (Suc wordIndex) words of
        [] \<Rightarrow> True
      | w # _ \<Rightarrow> wd_line w \<noteq> wd_line (words ! wordIndex))"

subsection \<open>Rhyme groups\<close>

definition multiMatch :: "span \<Rightarrow> span \<Rightarrow> bool" where
  "multiMatch si sj =
     list_ex (\<lambda>tail. case (map_of (sp_multiKeys si) tail, map_of (sp_multiKeys sj) tail) of
                        (Some a, Some b) \<Rightarrow> a \<noteq> [] \<and> b \<noteq> [] \<and> a = b
                      | _ \<Rightarrow> False)
             [3, 2]"

definition pairThreshold :: "settings \<Rightarrow> word list \<Rightarrow> span \<Rightarrow> span \<Rightarrow> rat" where
  "pairThreshold st words si sj =
     (let isLineEndI = isLineEnd (sp_wordIndex si) words;
          isLineEndJ = isLineEnd (sp_wordIndex sj) words
      in if isLineEndI \<and> isLineEndJ then perfectThreshold st
         else if isLineEndI \<or> isLineEndJ then (perfectThreshold st + slantThreshold st) / 2
         else slantThreshold st)"

text \<open>
  The inner loop over the candidates \<open>j\<close> of seed \<open>i\<close>; the state is the group being
  built and the set of used span indices.
\<close>

fun group_inner ::
  "settings \<Rightarrow> word list \<Rightarrow> span list \<Rightarrow> nat \<Rightarrow> nat list \<Rightarrow> nat list \<times> nat set
   \<Rightarrow> nat list \<times> nat set" where
  "group_inner st words spans i [] (groupIndices, used) = (groupIndices, used)"
| "group_inner st words spans i (j # js) (groupIndices, used) =
     (if j \<in> used then group_inner st words spans i js (groupIndices, used)
      else if wd_lower (words ! sp_wordIndex (spans ! i))
              = wd_lower (words ! sp_wordIndex (spans ! j))
      then group_inner st words spans i js (groupIndices, used)
      else if multiMatch (spans ! i) (spans ! j)
      then group_inner st words spans i js (groupIndices @ [j], insert j used)
      else if rhymeDistance (sp_key (spans ! i)) (sp_key (spans ! j))
                \<le> pairThreshold st words (spans ! i) (spans ! j)
      then group_inner st words spans i js (groupIndices @ [j], insert j used)
      else group_inner st words spans i js (groupIndices, used))"

fun group_outer ::
  "settings \<Rightarrow> word list \<Rightarrow> span list \<Rightarrow> nat list \<Rightarrow> nat list list \<times> nat set
   \<Rightarrow> nat list list \<times> nat set" where
  "group_outer st words spans [] (groups, used) = (groups, used)"
| "group_outer st words spans (i # is) (groups, used) =
     (if i \<in> used then group_outer st words spans is (groups, used)
      else (let (groupIndices, used') =
                  group_inner st words spans i [Suc i ..< length spans] ([i], insert i used)
            in group_outer st words spans is
                 (if length groupIndices \<ge> 2 then groups @ [groupIndices] else groups,
                  used')))"

text \<open>The rhyme groups, each as the list of the indices of its spans.\<close>

definition groupRhymes :: "settings \<Rightarrow> word list \<Rightarrow> span list \<Rightarrow> nat list list" where
  "groupRhymes st words spans =
     fst (group_outer st words spans [0 ..< length spans] ([], {}))"

record rgroup =
  gr_spans :: "span list"
  gr_type :: string

subsection \<open>Assonance groups\<close>

text \<open>The inner function \<open>getStressedVowel\<close> of \<open>detectAssonance\<close>.\<close>

definition getStressedVowel :: "word \<Rightarrow> string option" where
  "getStressedVowel w =
     (let stressIndex = (case wd_stress w of Some s \<Rightarrow> s
                         | None \<Rightarrow> length (wd_syllables w) - 1)
      in if stressIndex < length (wd_syllables w)
         then (case find isVowelPhone (wd_syllables w ! stressIndex) of
                 Some phone \<Rightarrow> Some (keyPart phone)
               | None \<Rightarrow> None)
         else None)"

definition detectAssonance :: "word \<Rightarrow> word \<Rightarrow> bool" where
  "detectAssonance w1 w2 =
     (if wd_syllables w1 = [] \<or> wd_syllables w2 = [] then False
      else (case (getStressedVowel w1, getStressedVowel w2) of
              (Some v1, Some v2) \<Rightarrow> v1 = v2 \<or> getVowelFamily v1 = getVowelFamily v2
            | _ \<Rightarrow> False))"

fun asson_inner ::
  "word list \<Rightarrow> nat \<Rightarrow> nat list \<Rightarrow> nat list \<times> nat set \<Rightarrow> nat list \<times> nat set" where
  "asson_inner words i [] (grp, assonanceUsed) = (grp, assonanceUsed)"
| "asson_inner words i (j # js) (grp, assonanceUsed) =
     (if j \<in> assonanceUsed \<or> wd_lower (words ! j) \<in> set STOP_WORDS
      then asson_inner words i js (grp, assonanceUsed)
      else if wd_lower (words ! j) = wd_lower (words ! i)
      then asson_inner words i js (grp, assonanceUsed)
      else if detectAssonance (words ! i) (words ! j)
      then asson_inner words i js (grp @ [j], insert j assonanceUsed)
      else asson_inner words i js (grp, assonanceUsed))"

fun asson_outer ::
  "word list \<Rightarrow> nat list \<Rightarrow> nat list list \<times> nat set \<Rightarrow> nat list list \<times> nat set" where
  "asson_outer words [] (groups, assonanceUsed) = (groups, assonanceUsed)"
| "asson_outer words (i # is) (groups, assonanceUsed) =
     (if i \<in> assonanceUsed \<or> wd_lower (words ! i) \<in> set STOP_WORDS
      then asson_outer words is (groups, assonanceUsed)
      else (let (grp, used') =
                  asson_inner words i [Suc i ..< length words] ([i], insert i assonanceUsed)
            in asson_outer words is
                 (if length grp \<ge> 3 then groups @ [grp] else groups, used')))"

definition buildAssonanceGroups :: "settings \<Rightarrow> word list \<Rightarrow> nat list list" where
  "buildAssonanceGroups st words =
     (if highlightAssonance st
      then fst (asson_outer words [0 ..< length words] ([], {}))
      else [])"

subsection \<open>The word-to-group index\<close>

text \<open>An entry is \<open>[groupId, tail, type]\<close>; a word without entries has no key in the index.\<close>

type_synonym entry = "nat \<times> nat \<times> string"

definition pushEntry :: "nat \<Rightarrow> entry \<Rightarrow> (nat \<Rightarrow> entry list) \<Rightarrow> (nat \<Rightarrow> entry list)" where
  "pushEntry wordIndex e m = m(wordIndex := m wordIndex @ [e])"

definition buildWordToGroup :: "rgroup list \<Rightarrow> nat list list \<Rightarrow> nat \<Rightarrow> entry list" where
  "buildWordToGroup groups assonanceGroups =
     (let m1 = fold (\<lambda>groupId m.
                       fold (\<lambda>sp. pushEntry (sp_wordIndex sp) (groupId, sp_tail sp, ''rhyme''))
                            (gr_spans (groups ! groupId)) m)
                    [0 ..< length groups] (\<lambda>_. [])
      in fold (\<lambda>assonanceId m.
                 fold (\<lambda>wordIndex.
                         pushEntry wordIndex (length groups + assonanceId, 1, ''assonance''))
                      (assonanceGroups ! assonanceId) m)
              [0 ..< length assonanceGroups] m1)"

text \<open>
  The keys of the index in the order of \<open>Object.entries\<close> (ascending word index), each
  with its entries.
\<close>

definition indexEntries :: "word list \<Rightarrow> (nat \<Rightarrow> entry list) \<Rightarrow> (nat \<times> entry list) list" where
  "indexEntries words wordToGroup =
     map (\<lambda>i. (i, wordToGroup i)) (filter (\<lambda>i. wordToGroup i \<noteq> []) [0 ..< length words])"

subsection \<open>Internal rhymes\<close>

text \<open>\<open>Math.max(...words.map(w => w.line), -1) + 1\<close>: the number of line indices visited.\<close>

definition lineCount :: "word list \<Rightarrow> nat" where
  "lineCount words = (if words = [] then 0 else Suc (fold max (map wd_line words) 0))"

definition internalPairs :: "settings \<Rightarrow> word list \<Rightarrow> nat \<Rightarrow> (nat \<times> nat) list" where
  "internalPairs st words lineIndex =
     (let lineWords = filter (\<lambda>i. wd_line (words ! i) = lineIndex) [0 ..< length words]
      in concat (map (\<lambda>i. concat (map (\<lambda>j.
           (let wi1 = lineWords ! i; wi2 = lineWords ! j;
                w1 = words ! wi1; w2 = words ! wi2
            in if wd_lower w1 = wd_lower w2 then []
               else (case (getRhymeKey (wd_syllables w1) (wd_stress w1),
                           getRhymeKey (wd_syllables w2) (wd_stress w2)) of
                       (Some k1, Some k2) \<Rightarrow>
                         (if rhymeDistance k1 k2 \<le> slantThreshold st then [(wi1, wi2)] else [])
                     | _ \<Rightarrow> [])))
           [Suc i ..< length lineWords])) [0 ..< length lineWords]))"

definition buildInternalRhymes :: "settings \<Rightarrow> word list \<Rightarrow> (nat \<times> (nat \<times> nat) list) list" where
  "buildInternalRhymes st words =
     (if showInternalRhymes st
      then filter (\<lambda>(lineIndex, pairs). pairs \<noteq> [])
             (map (\<lambda>lineIndex. (lineIndex, internalPairs st words lineIndex))
                  [0 ..< lineCount words])
      else [])"

subsection \<open>The rhyme scheme\<close>

definition lastWordOnLine :: "word list \<Rightarrow> nat \<Rightarrow> nat option" where
  "lastWordOnLine words line =
     find (\<lambda>i. wd_line (words ! i) = line) (rev [0 ..< length words])"

text \<open>
  The loop of \<open>buildScheme\<close> over the lines, with the letters given so far, the next
  character code and the sequence built so far.
\<close>

fun buildScheme_loop ::
  "word list \<Rightarrow> (nat \<Rightarrow> entry list) \<Rightarrow> nat list \<Rightarrow> (nat \<times> char) list \<Rightarrow> nat \<Rightarrow> string
   \<Rightarrow> string" where
  "buildScheme_loop words wordToGroup [] groupIdToLetter nextCharCode sequence = sequence"
| "buildScheme_loop words wordToGroup (line # rest) groupIdToLetter nextCharCode sequence =
     (case lastWordOnLine words line of
        None \<Rightarrow> buildScheme_loop words wordToGroup rest groupIdToLetter nextCharCode
                  (sequence @ ''-'')
      | Some lastWordIndex \<Rightarrow>
          (case wordToGroup lastWordIndex of
             [] \<Rightarrow> buildScheme_loop words wordToGroup rest groupIdToLetter nextCharCode
                     (sequence @ ''-'')
           | e # _ \<Rightarrow>
               (case map_of groupIdToLetter (fst e) of
                  Some letter \<Rightarrow>
                    buildScheme_loop words wordToGroup rest groupIdToLetter nextCharCode
                      (sequence @ [letter])
                | None \<Rightarrow>
                    buildScheme_loop words wordToGroup rest
                      (groupIdToLetter @ [(fst e, char_of nextCharCode)]) (Suc nextCharCode)
                      (sequence @ [char_of nextCharCode]))))"

definition buildScheme :: "word list \<Rightarrow> (nat \<Rightarrow> entry list) \<Rightarrow> string" where
  "buildScheme words wordToGroup =
     buildScheme_loop words wordToGroup [0 ..< lineCount words] [] 65 []"

subsection \<open>Metrics and \<open>analyze\<close>\<close>

record metrics =
  mt_totalSyllables :: nat
  mt_rhymingSyllables :: nat
  mt_density :: rat
  mt_multiRatio :: rat
  mt_avgPerLine :: rat
  mt_scheme :: string
  mt_rhymeTypes :: "(string \<times> nat) list"
  mt_uniqueRhymeGroups :: nat
  mt_uniqueAssonanceGroups :: nat

record result =
  rs_lines :: "string list"
  rs_words :: "word list"
  rs_spans :: "span list"
  rs_groups :: "rgroup list"
  rs_assonanceGroups :: "nat list list"
  rs_internalRhymes :: "(nat \<times> (nat \<times> nat) list) list"
  rs_wordToGroup :: "(nat \<times> entry list) list"
  rs_metrics :: metrics

text \<open>The largest tail among the entries of a word, and 0 for no entries.\<close>

definition maxTail :: "entry list \<Rightarrow> nat" where
  "maxTail entries = fold max (map (\<lambda>e. fst (snd e)) entries) 0"

text \<open>\<open>counts[key] = (counts[key] || 0) + n\<close> on an object whose keys keep their order.\<close>

fun addCount :: "'k \<Rightarrow> nat \<Rightarrow> ('k \<times> nat) list \<Rightarrow> ('k \<times> nat) list" where
  "addCount k n [] = [(k, n)]"
| "addCount k n ((k', v) # rest) =
     (if k = k' then (k', v + n) # rest else (k', v) # addCount k n rest)"

definition buildMetrics ::
  "word list \<Rightarrow> rgroup list \<Rightarrow> nat list list \<Rightarrow> (nat \<Rightarrow> entry list) \<Rightarrow> metrics" where
  "buildMetrics words groups assonanceGroups wordToGroup =
     (let entries = indexEntries words wordToGroup;
          totalSyllables = sum_list (map (\<lambda>w. length (wd_syllables w)) words);
          rhymingSyllables = sum_list (map (\<lambda>i. maxTail (wordToGroup i)) [0 ..< length words]);
          multiSyllables =
            sum_list (map (\<lambda>(i, es). sum_list (map (\<lambda>e. if fst (snd e) \<ge> 2 then fst (snd e)
                                                        else 0) es))
                          entries);
          linesWithRhymes =
            fold (\<lambda>(i, es). addCount (wd_line (words ! i)) (maxTail es)) entries [];
          avgPerLine =
            (if length linesWithRhymes > 0
             then of_nat (sum_list (map snd linesWithRhymes)) / of_nat (length linesWithRhymes)
             else 0);
          density = (if totalSyllables > 0
                     then of_nat rhymingSyllables / of_nat totalSyllables else 0);
          multiRatio = (if rhymingSyllables > 0
                        then of_nat multiSyllables / of_nat rhymingSyllables else 0);
          rhymeTypes =
            fold (\<lambda>(i, es). fold (\<lambda>e. addCount (snd (snd e)) 1) es) entries []
      in \<lparr> mt_totalSyllables = totalSyllables, mt_rhymingSyllables = rhymingSyllables,
            mt_density = density, mt_multiRatio = multiRatio, mt_avgPerLine = avgPerLine,
            mt_scheme = buildScheme words wordToGroup, mt_rhymeTypes = rhymeTypes,
            mt_uniqueRhymeGroups = length groups,
            mt_uniqueAssonanceGroups = length assonanceGroups \<rparr>)"

text \<open>
  \<open>analyze\<close>. The text is split with \<open>text.split('\\n')\<close>: the separator, written with two
  backslashes in a string literal, is the two characters backslash and \<open>n\<close>.
\<close>

definition analyze :: "settings \<Rightarrow> string \<Rightarrow> result" where
  "analyze st txt =
     (let lines = split [backslash, CHR ''n''] txt;
          words = buildWords lines;
          spans = buildSpans words;
          groups = map (\<lambda>groupIndices. \<lparr> gr_spans = map (\<lambda>idx. spans ! idx) groupIndices,
                                           gr_type = ''rhyme'' \<rparr>)
                       (groupRhymes st words spans);
          assonanceGroups = buildAssonanceGroups st words;
          wordToGroup = buildWordToGroup groups assonanceGroups
      in \<lparr> rs_lines = lines, rs_words = words, rs_spans = spans, rs_groups = groups,
            rs_assonanceGroups = assonanceGroups,
            rs_internalRhymes = buildInternalRhymes st words,
            rs_wordToGroup = indexEntries words wordToGroup,
            rs_metrics = buildMetrics words groups assonanceGroups wordToGroup \<rparr>)"

section \<open>Notions used in the statements\<close>

text \<open>The number of phonemes of a syllable that pass the vowel test of \<open>syllabify\<close>.\<close>

definition vowelCount :: "string list \<Rightarrow> nat" where
  "vowelCount syllable = length (filter isVowelPhone syllable)"

text \<open>
  The invariant of the loop of \<open>syllabify\<close>, on the closed syllables \<open>S\<close> and the current
  syllable \<open>c\<close>: only the first phoneme of a syllable may be a vowel, every closed
  syllable after the first starts with one, and so does the current syllable once a
  syllable has been closed.
\<close>

definition syl_inv :: "string list list \<Rightarrow> string list \<Rightarrow> bool" where
  "syl_inv S c =
     ((\<forall>s\<in>set S. s \<noteq> [] \<and> (\<forall>p\<in>set (tl s). \<not> isVowelPhone p))
      \<and> (\<forall>s\<in>set (tl S). isVowelPhone (hd s))
      \<and> (\<forall>p\<in>set (tl c). \<not> isVowelPhone p)
      \<and> (S \<noteq> [] \<longrightarrow> c \<noteq> [] \<and> isVowelPhone (hd c)))"

text \<open>The settings the plugin starts with.\<close>

definition defaultSettings :: settings where
  "defaultSettings = \<lparr> perfectThreshold = 10 / 100, slantThreshold = 25 / 100,
     showInternalRhymes = True, highlightAssonance = True \<rparr>"

text \<open>The metrics of an analysis without words.\<close>

definition emptyMetrics :: metrics where
  "emptyMetrics = \<lparr> mt_totalSyllables = 0, mt_rhymingSyllables = 0, mt_density = 0,
     mt_multiRatio = 0, mt_avgPerLine = 0, mt_scheme = [], mt_rhymeTypes = [],
     mt_uniqueRhymeGroups = 0, mt_uniqueAssonanceGroups = 0 \<rparr>"

text \<open>The text of the two lines "cat" and "hat".\<close>

definition cat_hat :: string where
  "cat_hat = ''cat'' @ [newline] @ ''hat''"

text \<open>The words that \<open>analyze\<close> builds for the text \<open>cat_hat\<close>.\<close>

definition cat_hat_words :: "word list" where
  "cat_hat_words =
     [\<lparr> wd_line = 0, wd_text = ''cat'', wd_lower = [], wd_phones = [], wd_syllables = [],
        wd_stress = None, wd_position = 0 \<rparr>,
      \<lparr> wd_line = 0, wd_text = ''hat'', wd_lower = [], wd_phones = [], wd_syllables = [],
        wd_stress = None, wd_position = 4 \<rparr>]"

text \<open>The nucleus labels of the vowel classification table.\<close>

definition vowelClassLabels :: "string list" where
  "vowelClassLabels = map snd VOWEL_CLASSES"

text \<open>
  The distance of the specification, written from its words. The final vowel component of
  a nucleus label is what follows its last separator \<open>+\<close>; two components are of one
  family when one of the four families holds both; two consonants are an equivalent pair
  when the table of pairs holds them in either order; the mismatch count compares the
  codas pairwise from the end, up to the shorter length.
\<close>

definition spec_finalComponent :: "string \<Rightarrow> string" where
  "spec_finalComponent n = rev (takeWhile (\<lambda>c. c \<noteq> CHR ''+'') (rev n))"

definition spec_sameFamily :: "string \<Rightarrow> string \<Rightarrow> bool" where
  "spec_sameFamily a b = list_ex (\<lambda>family. a \<in> set family \<and> b \<in> set family) vowel_families"

definition spec_nucleusDistance :: "string \<Rightarrow> string \<Rightarrow> rat" where
  "spec_nucleusDistance n1 n2 =
     (if n1 = n2 then 0
      else if spec_finalComponent n1 = spec_finalComponent n2 then 5 / 100
      else if spec_sameFamily (spec_finalComponent n1) (spec_finalComponent n2) then 25 / 100
      else 6 / 10)"

definition spec_equivalent :: "string \<Rightarrow> string \<Rightarrow> bool" where
  "spec_equivalent a b = ((a, b) \<in> set CONSONANT_PAIRS \<or> (b, a) \<in> set CONSONANT_PAIRS)"

definition spec_mismatches :: "string list \<Rightarrow> string list \<Rightarrow> nat" where
  "spec_mismatches c1 c2 =
     length (filter (\<lambda>(a, b). a \<noteq> b \<and> \<not> spec_equivalent a b) (zip (rev c1) (rev c2)))"

definition spec_codaDistance :: "string list \<Rightarrow> string list \<Rightarrow> rat" where
  "spec_codaDistance c1 c2 =
     (if c1 = c2 then 0
      else if (c1 = []) \<noteq> (c2 = []) then 6 / 10
      else min 1 ((35 / 100) * (of_nat (spec_mismatches c1 c2)
                                + (5 / 10) * \<bar>of_nat (length c1) - of_nat (length c2)\<bar>)))"

definition spec_rhymeDistance :: "rhymeKey \<Rightarrow> rhymeKey \<Rightarrow> rat" where
  "spec_rhymeDistance k1 k2 =
     (7 / 10) * spec_nucleusDistance (fst k1) (fst k2)
     + (3 / 10) * spec_codaDistance (snd k1) (snd k2)"

text \<open>
  A nucleus label of the data model: its final component is a label of the classification
  table. Every key that \<open>getRhymeKey\<close> returns for a syllabified phoneme sequence has
  such a label (lemma \<open>syllabified_key_known\<close>).
\<close>

definition knownNucleus :: "string \<Rightarrow> bool" where
  "knownNucleus n = (spec_finalComponent n \<in> set vowelClassLabels)"

text \<open>
  A word token as \<open>analyze\<close> holds it, for a given line, normalised text and phoneme
  sequence: syllables and stress index are those of \<open>syllabify\<close>.
\<close>

definition wordOf :: "nat \<Rightarrow> string \<Rightarrow> string list \<Rightarrow> word" where
  "wordOf lineIndex lower phones =
     \<lparr> wd_line = lineIndex, wd_text = lower, wd_lower = lower, wd_phones = phones,
       wd_syllables = fst (syllabify phones), wd_stress = snd (syllabify phones),
       wd_position = 0 \<rparr>"

text \<open>The result of the minimal engine on \<open>cat_hat\<close>.\<close>

definition cat_hat_min_result :: min_result where
  "cat_hat_min_result =
     \<lparr> mr_words =
             [\<lparr> mw_text = ''cat'', mw_line = 0, mw_start = 0, mw_end = 3,
                mw_phones = [''K'', ''AE1'', ''T''], mw_tail = [''AE1'', ''T''] \<rparr>,
              \<lparr> mw_text = ''hat'', mw_line = 1, mw_start = 4, mw_end = 7,
                mw_phones = [''HH'', ''AE1'', ''T''], mw_tail = [''AE1'', ''T''] \<rparr>],
           mr_groups = [[0, 1]] \<rparr>"

text \<open>Word lists for the grouping loop, with phonemes that carry no stress digit.\<close>

definition two_words :: "word list" where
  "two_words = [wordOf 0 ''cat'' [''K'', ''AE'', ''T''], wordOf 1 ''hat'' [''HH'', ''AE'', ''T'']]"


section \<open>Properties of the minimal engine\<close>

subsection \<open>Joining phonemes with a space\<close>

lemma join_Cons_nonempty: "ys \<noteq> [] \<Longrightarrow> join sep (x # ys) = x @ sep @ join sep ys"
  by (cases ys) auto

lemma takeWhile_upto_space:
  "CHR '' '' \<notin> set z \<Longrightarrow> takeWhile (\<lambda>c. c \<noteq> CHR '' '') (z @ CHR '' '' # t) = z"
  by (induction z) auto

lemma spacefree_prefix_unique:
  assumes "CHR '' '' \<notin> set x" "CHR '' '' \<notin> set y"
    and "x @ CHR '' '' # r = y @ CHR '' '' # r'"
  shows "x = y \<and> r = r'"
proof -
  have "takeWhile (\<lambda>c. c \<noteq> CHR '' '') (x @ CHR '' '' # r) = x"
    using assms(1) by (rule takeWhile_upto_space)
  moreover have "takeWhile (\<lambda>c. c \<noteq> CHR '' '') (y @ CHR '' '' # r') = y"
    using assms(2) by (rule takeWhile_upto_space)
  ultimately have "x = y" using assms(3) by simp
  with assms(3) show ?thesis by simp
qed

lemma join_space_inj:
  "xs \<noteq> [] \<Longrightarrow> ys \<noteq> [] \<Longrightarrow>
   \<forall>p\<in>set xs. CHR '' '' \<notin> set p \<Longrightarrow> \<forall>p\<in>set ys. CHR '' '' \<notin> set p \<Longrightarrow>
   join '' '' xs = join '' '' ys \<Longrightarrow> xs = ys"
proof (induction xs arbitrary: ys)
  case Nil
  then show ?case by simp
next
  case (Cons x xs)
  obtain y ys' where ys: "ys = y # ys'" using Cons.prems(2) by (cases ys) auto
  have sx: "CHR '' '' \<notin> set x" and sy: "CHR '' '' \<notin> set y"
    using Cons.prems(3,4) ys by auto
  show ?case
  proof (cases "xs = []")
    case True
    show ?thesis
    proof (cases "ys' = []")
      case True
      with \<open>xs = []\<close> Cons.prems(5) ys show ?thesis by simp
    next
      case False
      with \<open>xs = []\<close> Cons.prems(5) ys have "x = y @ CHR '' '' # join '' '' ys'"
        by (simp add: join_Cons_nonempty)
      then have "CHR '' '' \<in> set x" by simp
      with sx show ?thesis by simp
    qed
  next
    case False
    show ?thesis
    proof (cases "ys' = []")
      case True
      with False Cons.prems(5) ys have "y = x @ CHR '' '' # join '' '' xs"
        by (simp add: join_Cons_nonempty)
      then have "CHR '' '' \<in> set y" by simp
      with sy show ?thesis by simp
    next
      case ys'ne: False
      from False ys'ne Cons.prems(5) ys
      have "x @ CHR '' '' # join '' '' xs = y @ CHR '' '' # join '' '' ys'"
        by (simp add: join_Cons_nonempty)
      from spacefree_prefix_unique[OF sx sy this]
      have "x = y" and "join '' '' xs = join '' '' ys'" by simp_all
      moreover have "xs = ys'"
        using Cons.IH[OF False ys'ne _ _ \<open>join '' '' xs = join '' '' ys'\<close>]
          Cons.prems(3,4) ys by simp
      ultimately show ?thesis using ys by simp
    qed
  qed
qed

subsection \<open>The positional scorer\<close>

text \<open>
  Claim C9. For tails of phonemes (strings without a space, as every phoneme the engine
  produces is), \<open>scoreRhyme\<close> returns 0 when either tail is empty, exactly 1 when the
  two non-empty tails are the same list, stress digits included, and at most 0.95 in
  every other case; so a threshold above 0.95 is met only by identical non-empty tails.
\<close>

theorem scoreRhyme_identical_or_capped:
  assumes "\<forall>p\<in>set tail1 \<union> set tail2. CHR '' '' \<notin> set p"
  shows "(tail1 = [] \<or> tail2 = [] \<longrightarrow> scoreRhyme tail1 tail2 = 0)
       \<and> (tail1 \<noteq> [] \<and> tail1 = tail2 \<longrightarrow> scoreRhyme tail1 tail2 = 1)
       \<and> (tail1 \<noteq> [] \<and> tail2 \<noteq> [] \<and> tail1 \<noteq> tail2 \<longrightarrow> scoreRhyme tail1 tail2 \<le> 95 / 100)
       \<and> (95 / 100 < threshold \<and> threshold \<le> scoreRhyme tail1 tail2
            \<longrightarrow> tail1 \<noteq> [] \<and> tail1 = tail2)"
proof -
  have inj: "tail1 \<noteq> [] \<Longrightarrow> tail2 \<noteq> [] \<Longrightarrow> join '' '' tail1 = join '' '' tail2
             \<Longrightarrow> tail1 = tail2"
    using join_space_inj[of tail1 tail2] assms by auto
  have a: "tail1 = [] \<or> tail2 = [] \<longrightarrow> scoreRhyme tail1 tail2 = 0"
    by (simp add: scoreRhyme_def)
  have b: "tail1 \<noteq> [] \<and> tail1 = tail2 \<longrightarrow> scoreRhyme tail1 tail2 = 1"
    by (simp add: scoreRhyme_def)
  have c: "tail1 \<noteq> [] \<and> tail2 \<noteq> [] \<and> tail1 \<noteq> tail2
           \<longrightarrow> scoreRhyme tail1 tail2 \<le> 95 / 100"
    using inj by (auto simp: scoreRhyme_def)
  have d: "95 / 100 < threshold \<and> threshold \<le> scoreRhyme tail1 tail2
            \<longrightarrow> tail1 \<noteq> [] \<and> tail1 = tail2"
  proof (intro impI, elim conjE)
    assume t: "95 / 100 < threshold" "threshold \<le> scoreRhyme tail1 tail2"
    then have big: "95 / 100 < scoreRhyme tail1 tail2" by simp
    have ne: "tail1 \<noteq> [] \<and> tail2 \<noteq> []"
    proof (rule ccontr)
      assume "\<not> ?thesis"
      then have "scoreRhyme tail1 tail2 = 0" using a by blast
      with big show False by simp
    qed
    have "tail1 = tail2"
    proof (rule ccontr)
      assume "tail1 \<noteq> tail2"
      with ne c have "scoreRhyme tail1 tail2 \<le> 95 / 100" by blast
      with big show False by simp
    qed
    with ne show "tail1 \<noteq> [] \<and> tail1 = tail2" by simp
  qed
  from a b c d show ?thesis by blast
qed

text \<open>
  The cases of C9 at concrete tails: an empty tail, the tails of "cat" and "hat", and two
  tails that differ in the last consonant.
\<close>

theorem scoreRhyme_identical_or_capped_witness:
  "scoreRhyme [] [''T''] = 0
   \<and> scoreRhyme [''AE1'', ''T''] [''AE1'', ''T''] = 1
   \<and> scoreRhyme [''AE1'', ''T''] [''AE1'', ''D''] \<le> 95 / 100
   \<and> (95 / 100 < (96 / 100 :: rat) \<and> 96 / 100 \<le> scoreRhyme [''AE1'', ''T''] [''AE1'', ''T''])"
  using scoreRhyme_identical_or_capped[of "[]" "[''T'']" 1]
        scoreRhyme_identical_or_capped[of "[''AE1'', ''T'']" "[''AE1'', ''T'']" "96 / 100"]
        scoreRhyme_identical_or_capped[of "[''AE1'', ''T'']" "[''AE1'', ''D'']" 1]
  by simp

subsection \<open>The rhyme tail of a word without a vowel\<close>

lemma getRhymeTail_loop_None:
  "\<forall>p\<in>set phones. \<not> min_isVowel p \<Longrightarrow> n \<le> length phones
   \<Longrightarrow> getRhymeTail_loop phones n = None"
  by (induction n) auto

lemma vowelless_words_grouped:
  "(case analyzeText (''hmm'' @ [newline] @ ''mm'') (1 / 2) of
      Inr r \<Rightarrow> mr_groups r = [[0, 1]]
               \<and> map mw_phones (mr_words r) = [[''HH'', ''M'', ''M''], [''M'', ''M'']]
               \<and> map mw_tail (mr_words r) = [[''M'', ''M''], [''M'', ''M'']]
    | Inl e \<Rightarrow> False)"
  by code_simp

text \<open>
  Claim C10. For a phoneme sequence without a vowel phoneme, \<open>getRhymeTail\<close> returns its
  last two phonemes (all of them when there are fewer), which is a non-empty tail for a
  non-empty sequence; and words without a vowel are placed into rhyme groups: the text of
  the two lines "hmm" and "mm" yields the tails M M twice and the one group of both words.
\<close>

theorem getRhymeTail_vowelless:
  assumes "\<forall>p\<in>set phones. \<not> min_isVowel p"
  shows "getRhymeTail phones = drop (length phones - 2) phones
       \<and> length (getRhymeTail phones) = min 2 (length phones)
       \<and> (phones \<noteq> [] \<longrightarrow> getRhymeTail phones \<noteq> [])
       \<and> (case analyzeText (''hmm'' @ [newline] @ ''mm'') (1 / 2) of
            Inr r \<Rightarrow> mr_groups r = [[0, 1]]
                     \<and> map mw_phones (mr_words r) = [[''HH'', ''M'', ''M''], [''M'', ''M'']]
                     \<and> map mw_tail (mr_words r) = [[''M'', ''M''], [''M'', ''M'']]
          | Inl e \<Rightarrow> False)"
proof -
  have "getRhymeTail phones = drop (length phones - 2) phones"
    using getRhymeTail_loop_None[OF assms, of "length phones"]
    by (simp add: getRhymeTail_def)
  then have "getRhymeTail phones = drop (length phones - 2) phones
       \<and> length (getRhymeTail phones) = min 2 (length phones)
       \<and> (phones \<noteq> [] \<longrightarrow> getRhymeTail phones \<noteq> [])"
    by (cases phones) auto
  with vowelless_words_grouped show ?thesis by blast
qed

text \<open>C10 at the phonemes of "hmm": none is a vowel, the tail is M M.\<close>

theorem getRhymeTail_vowelless_witness:
  "\<not> min_isVowel ''HH'' \<and> \<not> min_isVowel ''M''
   \<and> getRhymeTail [''HH'', ''M'', ''M''] = [''M'', ''M'']
   \<and> length (getRhymeTail [''HH'', ''M'', ''M'']) = 2"
proof -
  have h: "\<forall>p\<in>set [''HH'', ''M'', ''M'']. \<not> min_isVowel p"
    by (simp add: min_isVowel_def stripStress_def ARPA_VOWELS_def)
  show ?thesis using h getRhymeTail_vowelless[OF h] by simp
qed

section \<open>Properties of the full engine\<close>

subsection \<open>Syllables\<close>

lemma syl_inv_push:
  assumes "syl_inv S c" "isVowelPhone phone"
  shows "syl_inv (if c \<noteq> [] then S @ [c] else S) [phone]"
proof (cases "c = []")
  case True
  with assms have "S = []" by (auto simp: syl_inv_def)
  with True assms(2) show ?thesis by (simp add: syl_inv_def)
next
  case False
  show ?thesis
  proof (cases "S = []")
    case True
    with False assms show ?thesis by (auto simp: syl_inv_def)
  next
    case Sne: False
    then have "tl (S @ [c]) = tl S @ [c]" by simp
    with False Sne assms show ?thesis by (auto simp: syl_inv_def)
  qed
qed

lemma syl_inv_extend:
  assumes "syl_inv S c" "\<not> isVowelPhone phone"
  shows "syl_inv S (c @ [phone])"
proof (cases "c = []")
  case True
  with assms have "S = []" by (auto simp: syl_inv_def)
  with True show ?thesis by (simp add: syl_inv_def)
next
  case False
  then have "tl (c @ [phone]) = tl c @ [phone]" "hd (c @ [phone]) = hd c" by simp_all
  with False assms show ?thesis by (auto simp: syl_inv_def)
qed

lemma syllabify_loop_inv:
  "syl_inv S c \<Longrightarrow> syllabify_loop rest S c st = (S', c', st')
   \<Longrightarrow> syl_inv S' c' \<and> concat S' @ c' = concat S @ c @ rest"
proof (induction rest arbitrary: S c st)
  case Nil
  then show ?case by simp
next
  case (Cons phone rest)
  show ?case
  proof (cases "isVowelPhone phone")
    case True
    let ?S = "if c \<noteq> [] then S @ [c] else S"
    from Cons.prems(2) True
    have "syllabify_loop rest ?S [phone] (if endsWith1 phone then Some (length ?S) else st)
          = (S', c', st')"
      by (simp add: Let_def)
    from Cons.IH[OF syl_inv_push[OF Cons.prems(1) True] this]
    show ?thesis by (auto split: if_splits)
  next
    case False
    from Cons.prems(2) False
    have "syllabify_loop rest S (c @ [phone]) st = (S', c', st')" by simp
    from Cons.IH[OF syl_inv_extend[OF Cons.prems(1) False] this]
    show ?thesis by simp
  qed
qed

lemma syl_inv_final:
  assumes "syl_inv S c"
  shows "syl_inv (if c \<noteq> [] then S @ [c] else S) []
         \<or> (c \<noteq> [] \<and> (\<forall>s\<in>set (S @ [c]). s \<noteq> [] \<and> (\<forall>p\<in>set (tl s). \<not> isVowelPhone p))
             \<and> (\<forall>s\<in>set (tl (S @ [c])). isVowelPhone (hd s)))"
proof (cases "c = []")
  case True
  with assms have "S = []" by (auto simp: syl_inv_def)
  with True show ?thesis by (simp add: syl_inv_def)
next
  case False
  show ?thesis
  proof (cases "S = []")
    case True
    with False assms show ?thesis by (auto simp: syl_inv_def)
  next
    case Sne: False
    then have "tl (S @ [c]) = tl S @ [c]" by simp
    with False Sne assms show ?thesis by (auto simp: syl_inv_def)
  qed
qed

lemma syllabify_syllables:
  "concat (fst (syllabify phones)) = phones
   \<and> (\<forall>s\<in>set (fst (syllabify phones)). s \<noteq> [] \<and> (\<forall>p\<in>set (tl s). \<not> isVowelPhone p))
   \<and> (\<forall>s\<in>set (tl (fst (syllabify phones))). isVowelPhone (hd s))"
proof -
  obtain S c st where loop: "syllabify_loop phones [] [] None = (S, c, st)"
    by (cases "syllabify_loop phones [] [] None") auto
  have inv0: "syl_inv [] []" by (simp add: syl_inv_def)
  from syllabify_loop_inv[OF inv0 loop]
  have inv: "syl_inv S c" and cc: "concat S @ c = phones" by simp_all
  have fst_eq: "fst (syllabify phones) = (if c \<noteq> [] then S @ [c] else S)"
    using loop by (simp add: syllabify_def Let_def)
  show ?thesis
  proof (cases "c = []")
    case True
    with inv have "S = []" by (auto simp: syl_inv_def)
    with True cc fst_eq show ?thesis by simp
  next
    case False
    from syl_inv_final[OF inv] False
    have "(\<forall>s\<in>set (S @ [c]). s \<noteq> [] \<and> (\<forall>p\<in>set (tl s). \<not> isVowelPhone p))
             \<and> (\<forall>s\<in>set (tl (S @ [c])). isVowelPhone (hd s))"
      by (auto simp: syl_inv_def)
    with False cc fst_eq show ?thesis by simp
  qed
qed

lemma vowelCount_head:
  "s \<noteq> [] \<Longrightarrow> \<forall>p\<in>set (tl s). \<not> isVowelPhone p
   \<Longrightarrow> vowelCount s = (if isVowelPhone (hd s) then 1 else 0)"
  by (cases s) (auto simp: vowelCount_def filter_empty_conv)

text \<open>
  Claim C5, as amended. Every syllable produced by \<open>syllabify\<close> is non-empty and holds
  at most one phoneme that passes the vowel test of \<open>syllabify\<close>; the syllables
  concatenate to the phoneme sequence; a new syllable starts at each vowel, so every
  syllable after the first starts with its only vowel; and the consonants before the first
  vowel form a first syllable of their own, without a vowel.
\<close>

theorem syllabify_at_most_one_vowel:
  "concat (fst (syllabify phones)) = phones
   \<and> (\<forall>s\<in>set (fst (syllabify phones)). s \<noteq> [] \<and> vowelCount s \<le> 1)
   \<and> (\<forall>s\<in>set (tl (fst (syllabify phones))). isVowelPhone (hd s) \<and> vowelCount s = 1)
   \<and> (phones \<noteq> [] \<and> \<not> isVowelPhone (hd phones)
        \<longrightarrow> vowelCount (hd (fst (syllabify phones))) = 0)"
proof -
  let ?S = "fst (syllabify phones)"
  note sh = syllabify_syllables[of phones]
  have a: "concat ?S = phones" using sh by simp
  have b: "\<forall>s\<in>set ?S. s \<noteq> [] \<and> vowelCount s \<le> 1"
    using sh by (auto simp: vowelCount_head)
  have c: "\<forall>s\<in>set (tl ?S). isVowelPhone (hd s) \<and> vowelCount s = 1"
  proof
    fix s assume s: "s \<in> set (tl ?S)"
    then have "s \<in> set ?S" by (cases ?S) auto
    with sh have "s \<noteq> []" "\<forall>p\<in>set (tl s). \<not> isVowelPhone p" by auto
    moreover from sh s have "isVowelPhone (hd s)" by auto
    ultimately show "isVowelPhone (hd s) \<and> vowelCount s = 1"
      by (simp add: vowelCount_head)
  qed
  have d: "phones \<noteq> [] \<and> \<not> isVowelPhone (hd phones) \<longrightarrow> vowelCount (hd ?S) = 0"
  proof (intro impI, elim conjE)
    assume ne: "phones \<noteq> []" and nv: "\<not> isVowelPhone (hd phones)"
    from a ne have Sne: "?S \<noteq> []" by auto
    then obtain s0 rest where S: "?S = s0 # rest" by (cases ?S) auto
    with sh have s0: "s0 \<noteq> []" "\<forall>p\<in>set (tl s0). \<not> isVowelPhone p" by auto
    from a S s0 have "hd phones = hd s0" by (metis concat.simps(2) hd_append2)
    with nv s0 S show "vowelCount (hd ?S) = 0" by (simp add: vowelCount_head)
  qed
  from a b c d show ?thesis by blast
qed

text \<open>C5 as amended, on the phonemes K AE T: the syllables are K and AE T.\<close>

theorem syllabify_at_most_one_vowel_witness:
  "concat (fst (syllabify [''K'', ''AE'', ''T''])) = [''K'', ''AE'', ''T'']
   \<and> fst (syllabify [''K'', ''AE'', ''T'']) = [[''K''], [''AE'', ''T'']]
   \<and> \<not> isVowelPhone ''K''
   \<and> vowelCount (hd (fst (syllabify [''K'', ''AE'', ''T'']))) = 0"
proof -
  have s: "fst (syllabify [''K'', ''AE'', ''T'']) = [[''K''], [''AE'', ''T'']]"
    by code_simp
  have k: "\<not> isVowelPhone ''K''" by code_simp
  from syllabify_at_most_one_vowel[of "[''K'', ''AE'', ''T'']"] s k
  show ?thesis by simp
qed

text \<open>
  Claim C5 as stated fails on the phonemes K AE T: the consonant before the first vowel
  is a syllable of its own, with no vowel in it.
\<close>

theorem syllabify_onset_counterexample:
  "fst (syllabify [''K'', ''AE'', ''T'']) = [[''K''], [''AE'', ''T'']]
   \<and> map vowelCount (fst (syllabify [''K'', ''AE'', ''T''])) = [0, 1]"
  by code_simp

text \<open>
  A phoneme that passes the vowel test does not end with the digit 1, so the stress
  index that \<open>syllabify\<close> returns is always the index of the final syllable.
\<close>

lemma normalizePhone_keeps_last:
  "p \<noteq> [] \<Longrightarrow> last p = CHR ''1''
   \<Longrightarrow> normalizePhone p \<noteq> [] \<and> last (normalizePhone p) = CHR ''1''"
proof (induction p rule: normalizePhone.induct)
  case (1 c d cs)
  show ?case
  proof (cases "c = backslash \<and> d = CHR ''d''")
    case True
    with "1.prems" have "cs \<noteq> []" "last cs = CHR ''1''" by (auto split: if_splits)
    with "1.IH"(1)[OF True] True show ?thesis by simp
  next
    case False
    from "1.prems" have "last (d # cs) = CHR ''1''" by simp
    with "1.IH"(2)[OF False]
    have n: "normalizePhone (d # cs) \<noteq> [] \<and> last (normalizePhone (d # cs)) = CHR ''1''"
      by simp
    have "normalizePhone (c # d # cs) = c # normalizePhone (d # cs)"
      using False by auto
    with n show ?thesis by simp
  qed
qed simp_all

lemma vowel_names_unmarked: "list_all (\<lambda>v. v = [] \<or> last v \<noteq> CHR ''1'') ARPA_VOWELS"
  by code_simp

lemma vowel_phone_not_marked: "isVowelPhone phone \<Longrightarrow> \<not> endsWith1 phone"
proof
  assume v: "isVowelPhone phone" and e: "endsWith1 phone"
  from e have "normalizePhone phone \<noteq> [] \<and> last (normalizePhone phone) = CHR ''1''"
    by (intro normalizePhone_keeps_last) (simp_all add: endsWith1_def)
  moreover from v vowel_names_unmarked
  have "normalizePhone phone = [] \<or> last (normalizePhone phone) \<noteq> CHR ''1''"
    by (auto simp: isVowelPhone_def list_all_iff)
  ultimately show False by blast
qed

lemma syllabify_loop_stress:
  "snd (snd (syllabify_loop rest S c st)) = st"
  by (induction rest arbitrary: S c) (auto simp: Let_def vowel_phone_not_marked)

lemma syllabify_stress_is_final:
  "snd (syllabify phones) =
     (if fst (syllabify phones) = [] then None
      else Some (length (fst (syllabify phones)) - 1))"
proof -
  obtain S c st where l: "syllabify_loop phones [] [] None = (S, c, st)"
    by (cases "syllabify_loop phones [] [] None") auto
  with syllabify_loop_stress[of phones "[]" "[]" None] have "st = None" by simp
  with l show ?thesis by (simp add: syllabify_def Let_def)
qed

text \<open>
  Claim C6 against the code. The vowel test of \<open>syllabify\<close> compares the phoneme, with
  its stress digit still attached, against the vowel table, so a vowel that carries a
  stress digit is taken for a consonant and its digit 1 is never seen. On AE1 T AH the
  first vowel with stress digit 1 is the first phoneme, yet the stress index returned is
  1, the last syllable; on K AE1 T the whole word is one syllable. The empty sequence
  yields no syllable and no stress index.
\<close>

theorem syllabify_stress_digit_unseen:
  "syllabify [''AE1'', ''T'', ''AH''] = ([[''AE1'', ''T''], [''AH'']], Some 1)
   \<and> syllabify [''K'', ''AE1'', ''T''] = ([[''K'', ''AE1'', ''T'']], Some 0)
   \<and> syllabify [] = ([], None)"
  by code_simp

subsection \<open>The exception dictionary\<close>

text \<open>
  A cleaned word never is a key of the dictionary: \<open>wordToPhones\<close> always goes through
  the heuristic converter.
\<close>

lemma trim_chars: "set (trim s) \<subseteq> set s"
proof -
  have "set (dropWhile isSpace (rev (dropWhile isSpace s))) \<subseteq> set (rev (dropWhile isSpace s))"
    by (rule set_dropWhileD[THEN subsetI])
  also have "\<dots> \<subseteq> set s" using set_dropWhileD[of _ isSpace s] by auto
  finally show ?thesis by (simp add: trim_def)
qed

lemma cleanWord_chars: "set (cleanWord word) \<subseteq> {backslash, CHR ''w'', apostrophe}"
  using trim_chars[of "filter (\<lambda>c. c = backslash \<or> c = CHR ''w'' \<or> c = apostrophe)
                              (toLowerCase word)"]
  by (auto simp: cleanWord_def)

lemma dictionary_keys_have_other_letters:
  "list_all (\<lambda>(k, ps). list_ex (\<lambda>c. c \<noteq> backslash \<and> c \<noteq> CHR ''w'' \<and> c \<noteq> apostrophe) k)
            CUSTOM_ARPA"
  by code_simp

lemma dictionary_never_hit: "map_of CUSTOM_ARPA (cleanWord word) = None"
proof (rule ccontr)
  assume "map_of CUSTOM_ARPA (cleanWord word) \<noteq> None"
  then obtain ps where "map_of CUSTOM_ARPA (cleanWord word) = Some ps" by auto
  then have "(cleanWord word, ps) \<in> set CUSTOM_ARPA" by (rule map_of_SomeD)
  with dictionary_keys_have_other_letters
  have "\<exists>c\<in>set (cleanWord word). c \<noteq> backslash \<and> c \<noteq> CHR ''w'' \<and> c \<noteq> apostrophe"
    by (auto simp: list_all_iff list_ex_iff)
  with cleanWord_chars[of word] show False by auto
qed

lemma wordToPhones_is_heuristic: "wordToPhones word = g2pHeuristic (cleanWord word)"
  by (simp add: wordToPhones_def dictionary_never_hit)

text \<open>
  Claim C8 against the code. \<open>cleanWord\<close> keeps only backslashes, the letter w and
  apostrophes, so the dictionary is looked up with what is left of the word: "gonna", a
  key of the dictionary, is cleaned to the empty string, misses the dictionary and goes
  through the heuristic converter, which returns no phoneme.
\<close>

theorem wordToPhones_misses_dictionary:
  "map_of CUSTOM_ARPA ''gonna'' = Some [''G'', ''AH1'', ''N'', ''AH0'']
   \<and> cleanWord ''gonna'' = []
   \<and> map_of CUSTOM_ARPA (cleanWord ''gonna'') = None
   \<and> wordToPhones ''gonna'' = g2pHeuristic []
   \<and> wordToPhones ''gonna'' = []"
  by code_simp

subsection \<open>Text without words\<close>

lemma isSpace_not_token: "isSpace c \<Longrightarrow> \<not> isTokenChar c"
  by (auto simp: isSpace_def isTokenChar_def isLetter_def isUpper_def isLower_def)

lemma main_matches_no_token:
  "\<forall>c\<in>set line. \<not> isTokenChar c \<Longrightarrow> main_matches line pos [] = []"
  by (induction line arbitrary: pos) auto

lemma split_acc_chars:
  "l \<in> set (split_acc sep acc s) \<Longrightarrow> set l \<subseteq> set acc \<union> set s"
proof (induction sep acc s rule: split_acc.induct)
  case (1 sep acc)
  then show ?case by simp
next
  case (2 sep acc c cs)
  show ?case
  proof (cases "sep \<noteq> [] \<and> take (length sep) (c # cs) = sep")
    case True
    with "2.prems" have "l = acc \<or> l \<in> set (split_acc sep [] (drop (length sep - 1) cs))"
      by simp
    then show ?thesis
    proof
      assume "l = acc" then show ?thesis by auto
    next
      assume "l \<in> set (split_acc sep [] (drop (length sep - 1) cs))"
      from "2.IH"(1)[OF True this] have "set l \<subseteq> set (drop (length sep - 1) cs)" by simp
      moreover have "set (drop (length sep - 1) cs) \<subseteq> set cs" by (rule set_drop_subset)
      ultimately show ?thesis by auto
    qed
  next
    case False
    with "2.prems" have "l \<in> set (split_acc sep (acc @ [c]) cs)" by auto
    from "2.IH"(2)[OF False this] show ?thesis by auto
  qed
qed

lemma split_chars: "l \<in> set (split sep s) \<Longrightarrow> set l \<subseteq> set s"
  using split_acc_chars[of l sep "[]" s] by (simp add: split_def)

lemma buildWords_no_token:
  assumes "\<forall>l\<in>set lines. \<forall>c\<in>set l. \<not> isTokenChar c"
  shows "buildWords lines = []"
proof -
  have "\<And>i. i < length lines \<Longrightarrow> main_matches (lines ! i) 0 [] = []"
    using assms by (intro main_matches_no_token) auto
  then show ?thesis by (simp add: buildWords_def)
qed

lemma analyze_no_words:
  assumes "buildWords (split [backslash, CHR ''n''] txt) = []"
  shows "analyze st txt =
     \<lparr> rs_lines = split [backslash, CHR ''n''] txt, rs_words = [], rs_spans = [],
       rs_groups = [], rs_assonanceGroups = [], rs_internalRhymes = [],
       rs_wordToGroup = [], rs_metrics = emptyMetrics \<rparr>"
proof -
  have sp: "buildSpans [] = []" by (simp add: buildSpans_def)
  have gr: "groupRhymes st [] [] = []" by (simp add: groupRhymes_def)
  have as: "buildAssonanceGroups st [] = []" by (simp add: buildAssonanceGroups_def)
  have wg: "buildWordToGroup [] [] = (\<lambda>_. [])" by (simp add: buildWordToGroup_def)
  have ir: "buildInternalRhymes st [] = []"
    by (simp add: buildInternalRhymes_def lineCount_def)
  have ie: "indexEntries [] (\<lambda>_. []) = []" by (simp add: indexEntries_def)
  have sc: "buildScheme [] (\<lambda>_. []) = []" by (simp add: buildScheme_def lineCount_def)
  have mt: "buildMetrics [] [] [] (\<lambda>_. []) = emptyMetrics"
    by (simp add: buildMetrics_def ie sc emptyMetrics_def)
  show ?thesis
    by (simp add: analyze_def Let_def assms sp gr as wg ir ie mt)
qed

text \<open>
  Claim C2. For a text that is empty or consists of white space only, \<open>analyze\<close>
  returns the empty result: no words, no spans, no rhyme groups, no assonance groups, no
  internal rhymes, an empty index, and metrics that are all zero (density 0, empty
  scheme). \<open>analyze\<close> has no failing branch: the model is a total function.
\<close>

theorem analyze_blank_text:
  assumes "\<forall>c\<in>set txt. isSpace c"
  shows "analyze st txt =
     \<lparr> rs_lines = split [backslash, CHR ''n''] txt, rs_words = [], rs_spans = [],
       rs_groups = [], rs_assonanceGroups = [], rs_internalRhymes = [],
       rs_wordToGroup = [], rs_metrics = emptyMetrics \<rparr>"
proof -
  have "\<forall>l\<in>set (split [backslash, CHR ''n''] txt). \<forall>c\<in>set l. \<not> isTokenChar c"
    using assms split_chars isSpace_not_token by blast
  then have "buildWords (split [backslash, CHR ''n''] txt) = []"
    by (rule buildWords_no_token)
  then show ?thesis by (rule analyze_no_words)
qed

text \<open>C2 on the empty text and on a text of spaces, a line feed and a tab.\<close>

theorem analyze_blank_text_witness:
  "rs_words (analyze defaultSettings []) = []
   \<and> rs_groups (analyze defaultSettings []) = []
   \<and> rs_assonanceGroups (analyze defaultSettings []) = []
   \<and> mt_density (rs_metrics (analyze defaultSettings [])) = 0
   \<and> rs_words (analyze defaultSettings ('' '' @ [newline, CHR 0x09] @ ''  '')) = []
   \<and> rs_metrics (analyze defaultSettings ('' '' @ [newline, CHR 0x09] @ ''  '')) = emptyMetrics"
proof -
  have h1: "\<forall>c\<in>set []. isSpace c" by simp
  have h2: "\<forall>c\<in>set ('' '' @ [newline, CHR 0x09] @ ''  ''). isSpace c"
    by (simp add: isSpace_def)
  show ?thesis
    using analyze_blank_text[OF h1, of defaultSettings]
          analyze_blank_text[OF h2, of defaultSettings]
    by (simp add: emptyMetrics_def)
qed

subsection \<open>The perfect-rhyme scenario\<close>

lemma cat_hat_lines: "split [backslash, CHR ''n''] cat_hat = [cat_hat]"
  by code_simp

lemma cat_hat_buildWords: "buildWords [cat_hat] = cat_hat_words"
  by code_simp

lemma cat_hat_spans: "buildSpans cat_hat_words = []"
  by code_simp

lemma cat_hat_assonance: "fst (asson_outer cat_hat_words [0 ..< length cat_hat_words] ([], {})) = []"
  by code_simp

lemma cat_hat_scheme: "buildScheme cat_hat_words (\<lambda>_. []) = ''-''"
  by code_simp

text \<open>
  Claim C4 against the code. On the text of the two lines "cat" and "hat", whatever the
  settings: the text is split at the two characters backslash and n, not at the line
  feed, so both words are on line 0; \<open>cleanWord\<close> empties both words, so they have no
  phonemes, no syllables and no rhyme key; there is no span and no rhyme group, and the
  scheme is the single placeholder.
\<close>

theorem analyze_cat_hat:
  "rs_lines (analyze st cat_hat) = [cat_hat]
   \<and> map wd_text (rs_words (analyze st cat_hat)) = [''cat'', ''hat'']
   \<and> map wd_line (rs_words (analyze st cat_hat)) = [0, 0]
   \<and> map wd_phones (rs_words (analyze st cat_hat)) = [[], []]
   \<and> map (\<lambda>w. getRhymeKey (wd_syllables w) (wd_stress w)) (rs_words (analyze st cat_hat))
       = [None, None]
   \<and> rs_spans (analyze st cat_hat) = []
   \<and> rs_groups (analyze st cat_hat) = []
   \<and> mt_scheme (rs_metrics (analyze st cat_hat)) = ''-''"
proof -
  have gr: "groupRhymes st cat_hat_words [] = []" by (simp add: groupRhymes_def)
  have as: "buildAssonanceGroups st cat_hat_words = []"
    using cat_hat_assonance by (simp add: buildAssonanceGroups_def)
  have wg: "buildWordToGroup [] [] = (\<lambda>_. [])" by (simp add: buildWordToGroup_def)
  have keys: "map (\<lambda>w. getRhymeKey (wd_syllables w) (wd_stress w)) cat_hat_words = [None, None]"
    by code_simp
  have w1: "map wd_text cat_hat_words = [''cat'', ''hat'']"
    and w2: "map wd_line cat_hat_words = [0, 0]"
    and w3: "map wd_phones cat_hat_words = [[], []]"
    by (simp_all add: cat_hat_words_def)
  show ?thesis
    by (simp add: analyze_def Let_def cat_hat_lines cat_hat_buildWords cat_hat_spans gr as wg
        buildMetrics_def cat_hat_scheme keys w1 w2 w3)
qed

subsection \<open>The rhyme distance\<close>

lemma split_acc_nonempty: "split_acc sep acc s \<noteq> []"
  by (induction sep acc s rule: split_acc.induct) auto

lemma last_split_acc_char:
  "c0 \<notin> set acc \<Longrightarrow>
   last (split_acc [c0] acc s) = rev (takeWhile (\<lambda>c. c \<noteq> c0) (rev (acc @ s)))"
proof (induction s arbitrary: acc)
  case Nil
  then have "takeWhile (\<lambda>c. c \<noteq> c0) (rev acc) = rev acc"
    by (auto simp: takeWhile_eq_all_conv)
  then have "rev (takeWhile (\<lambda>c. c \<noteq> c0) (rev acc)) = acc"
    by (simp only: rev_rev_ident)
  moreover have "last (split_acc [c0] acc []) = acc" by simp
  ultimately show ?case by (simp only: append_Nil2)
next
  case (Cons c cs)
  show ?case
  proof (cases "c = c0")
    case True
    have "last (split_acc [c0] acc (c # cs)) = last (split_acc [c0] [] cs)"
      using True split_acc_nonempty[of "[c0]" "[]" cs] by simp
    also have "\<dots> = rev (takeWhile (\<lambda>c. c \<noteq> c0) (rev cs))"
      using Cons.IH[of "[]"] by simp
    also have "\<dots> = rev (takeWhile (\<lambda>c. c \<noteq> c0) (rev (acc @ c # cs)))"
      using True by (simp add: takeWhile_tail)
    finally show ?thesis .
  next
    case False
    with Cons.prems have "c0 \<notin> set (acc @ [c])" by auto
    from Cons.IH[OF this] False show ?thesis by simp
  qed
qed

lemma last_split_plus: "last (split ''+'' n) = spec_finalComponent n"
  using last_split_acc_char[of "CHR ''+''" "[]" n]
  by (simp add: split_def spec_finalComponent_def)

lemma finalVowel_spec: "spec_finalComponent n \<noteq> [] \<Longrightarrow> finalVowel n = spec_finalComponent n"
  by (simp add: finalVowel_def orElse_def last_split_plus)

lemma labels_families:
  "list_all (\<lambda>a. a \<noteq> [] \<and> list_all (\<lambda>b. (getVowelFamily a = getVowelFamily b) = spec_sameFamily a b)
                         vowelClassLabels) vowelClassLabels"
  by code_simp

lemma known_family:
  assumes "a \<in> set vowelClassLabels" "b \<in> set vowelClassLabels"
  shows "(getVowelFamily a = getVowelFamily b) = spec_sameFamily a b" and "a \<noteq> []"
  using labels_families assms by (auto simp: list_all_iff)

lemma nucleusDistance_spec:
  assumes "knownNucleus n1" "knownNucleus n2"
  shows "nucleusDistance n1 n2 = spec_nucleusDistance n1 n2"
proof -
  let ?a = "spec_finalComponent n1" and ?b = "spec_finalComponent n2"
  have a: "?a \<in> set vowelClassLabels" and b: "?b \<in> set vowelClassLabels"
    using assms by (simp_all add: knownNucleus_def)
  have fa: "finalVowel n1 = ?a" using known_family(2)[OF a a] by (rule finalVowel_spec)
  have fb: "finalVowel n2 = ?b" using known_family(2)[OF b b] by (rule finalVowel_spec)
  show ?thesis
    by (simp add: nucleusDistance_def spec_nucleusDistance_def Let_def fa fb
        known_family(1)[OF a b])
qed

lemma equivalence_step:
  "b \<in> set ((let m1 = m(x := m x @ [y]) in m1(y := m1 y @ [x])) a)
   \<longleftrightarrow> b \<in> set (m a) \<or> (a = x \<and> b = y) \<or> (a = y \<and> b = x)"
  by (cases "a = x"; cases "a = y"; cases "x = y") (auto simp: Let_def)

lemma equivalence_fold:
  "b \<in> set (fold (\<lambda>(x, y) m. (let m1 = m(x := m x @ [y]) in m1(y := m1 y @ [x]))) pairs m a)
   \<longleftrightarrow> b \<in> set (m a) \<or> (a, b) \<in> set pairs \<or> (b, a) \<in> set pairs"
proof (induction pairs arbitrary: m)
  case Nil
  then show ?case by simp
next
  case (Cons p ps)
  obtain x y where p: "p = (x, y)" by (cases p)
  let ?f = "\<lambda>(x, y) m. (let m1 = m(x := m x @ [y]) in m1(y := m1 y @ [x]))"
  let ?m' = "(let m1 = m(x := m x @ [y]) in m1(y := m1 y @ [x]))"
  have "fold ?f (p # ps) m a = fold ?f ps ?m' a" by (simp only: fold_simps p prod.case)
  then have "b \<in> set (fold ?f (p # ps) m a)
        \<longleftrightarrow> b \<in> set (?m' a) \<or> (a, b) \<in> set ps \<or> (b, a) \<in> set ps"
    using Cons.IH[of ?m'] by (simp only:)
  also have "\<dots> \<longleftrightarrow> (b \<in> set (m a) \<or> (a = x \<and> b = y) \<or> (a = y \<and> b = x))
                      \<or> (a, b) \<in> set ps \<or> (b, a) \<in> set ps"
    by (simp only: equivalence_step)
  also have "\<dots> \<longleftrightarrow> b \<in> set (m a) \<or> (a, b) \<in> set (p # ps) \<or> (b, a) \<in> set (p # ps)"
    unfolding p by auto
  finally show ?case .
qed

lemma equivalence_spec: "b \<in> set (buildConsonantEquivalence a) \<longleftrightarrow> spec_equivalent a b"
  unfolding buildConsonantEquivalence_def spec_equivalent_def
  by (subst equivalence_fold) simp

lemma codaDistance_fold:
  "n \<le> length c1 \<Longrightarrow> n \<le> length c2 \<Longrightarrow>
   fold (codaDistance_step c1 c2) [0 ..< n] acc
   = acc + of_nat (length (filter (\<lambda>(a, b). a \<noteq> b \<and> \<not> spec_equivalent a b)
                                  (take n (zip (rev c1) (rev c2)))))"
proof (induction n)
  case 0
  then show ?case by simp
next
  case (Suc n)
  have n1: "n < length c1" and n2: "n < length c2" using Suc.prems by simp_all
  have nz: "n < length (zip (rev c1) (rev c2))" using n1 n2 by simp
  have tk: "take (Suc n) (zip (rev c1) (rev c2))
            = take n (zip (rev c1) (rev c2)) @ [(rev c1 ! n, rev c2 ! n)]"
    using nz by (simp add: take_Suc_conv_app_nth)
  have r1: "rev c1 ! n = c1 ! (length c1 - 1 - n)" using n1 by (simp add: rev_nth)
  have r2: "rev c2 ! n = c2 ! (length c2 - 1 - n)" using n2 by (simp add: rev_nth)
  have ih: "fold (codaDistance_step c1 c2) [0 ..< n] acc
            = acc + of_nat (length (filter (\<lambda>(a, b). a \<noteq> b \<and> \<not> spec_equivalent a b)
                                          (take n (zip (rev c1) (rev c2)))))"
    using Suc.IH n1 n2 by simp
  have "fold (codaDistance_step c1 c2) [0 ..< Suc n] acc
        = codaDistance_step c1 c2 n (fold (codaDistance_step c1 c2) [0 ..< n] acc)"
    by simp
  also have "\<dots> = codaDistance_step c1 c2 n
        (acc + of_nat (length (filter (\<lambda>(a, b). a \<noteq> b \<and> \<not> spec_equivalent a b)
                                          (take n (zip (rev c1) (rev c2))))))"
    by (simp only: ih)
  also have "\<dots> = acc + of_nat (length (filter (\<lambda>(a, b). a \<noteq> b \<and> \<not> spec_equivalent a b)
                                  (take (Suc n) (zip (rev c1) (rev c2)))))"
    unfolding tk by (simp add: r1 r2 codaDistance_step_def Let_def equivalence_spec)
  finally show ?case .
qed

lemma take_zip_min:
  "take (min (length xs) (length ys)) (zip xs ys) = zip xs ys"
  by simp

lemma codaDistance_spec: "codaDistance c1 c2 = spec_codaDistance c1 c2"
proof -
  have m: "fold (codaDistance_step c1 c2) [0 ..< min (length c1) (length c2)] 0
           = of_nat (spec_mismatches c1 c2)"
    using codaDistance_fold[of "min (length c1) (length c2)" c1 c2 0]
    by (simp add: spec_mismatches_def)
  have ar: "\<And>x y :: rat. (x + y * (5 / 10)) * (35 / 100) = (35 / 100) * (x + (5 / 10) * y)"
    by (simp add: algebra_simps)
  show ?thesis
  proof (cases "c1 = c2")
    case True
    then show ?thesis by (simp add: codaDistance_def spec_codaDistance_def)
  next
    case ne: False
    show ?thesis
    proof (cases "c1 = [] \<or> c2 = []")
      case True
      with ne have "(c1 = []) \<noteq> (c2 = [])" by auto
      with ne True show ?thesis by (simp add: codaDistance_def spec_codaDistance_def)
    next
      case False
      then have "\<not> ((c1 = []) \<noteq> (c2 = []))" by simp
      with ne False show ?thesis
        by (simp only: codaDistance_def spec_codaDistance_def Let_def m ar if_False)
    qed
  qed
qed

lemma class_of_vowel_is_label:
  "list_all (\<lambda>v. orElse (map_of VOWEL_CLASSES v) v \<in> set vowelClassLabels) ARPA_VOWELS"
  by code_simp

lemma labels_plain:
  "list_all (\<lambda>l. CHR ''+'' \<notin> set l \<and> l \<noteq> []) vowelClassLabels"
  by code_simp

lemma label_plain: "l \<in> set vowelClassLabels \<Longrightarrow> CHR ''+'' \<notin> set l \<and> l \<noteq> []"
  using labels_plain by (auto simp: list_all_iff)

lemma finalComponent_plain: "CHR ''+'' \<notin> set l \<Longrightarrow> spec_finalComponent l = l"
proof -
  assume "CHR ''+'' \<notin> set l"
  then have "takeWhile (\<lambda>c. c \<noteq> CHR ''+'') (rev l) = rev l"
    by (auto simp: takeWhile_eq_all_conv)
  then show ?thesis by (simp only: spec_finalComponent_def rev_rev_ident)
qed

lemma finalComponent_compound:
  "CHR ''+'' \<notin> set l \<Longrightarrow> spec_finalComponent (p @ ''+'' @ l) = l"
proof -
  assume a: "CHR ''+'' \<notin> set l"
  have "rev (p @ ''+'' @ l) = rev l @ CHR ''+'' # rev p" by simp
  moreover have "takeWhile (\<lambda>c. c \<noteq> CHR ''+'') (rev l @ CHR ''+'' # rev p) = rev l"
    using a by (induction l rule: rev_induct) auto
  ultimately show ?thesis by (simp only: spec_finalComponent_def rev_rev_ident)
qed

lemma extract_loop_label:
  "(\<exists>l\<in>set vowelClassLabels. n = Some l) \<or> (\<exists>p\<in>set s. isVowelPhone p)
   \<Longrightarrow> \<exists>l\<in>set vowelClassLabels. fst (extract_loop s n c) = Some l"
proof (induction s arbitrary: n c)
  case Nil
  then show ?case by auto
next
  case (Cons phone rest)
  show ?case
  proof (cases "isVowelPhone phone")
    case True
    then have "orElse (map_of VOWEL_CLASSES (normalizePhone phone)) (normalizePhone phone)
               \<in> set vowelClassLabels"
      using class_of_vowel_is_label by (auto simp: list_all_iff isVowelPhone_def)
    then have "\<exists>l\<in>set vowelClassLabels. fst (extract_loop rest
          (Some (orElse (map_of VOWEL_CLASSES (normalizePhone phone)) (normalizePhone phone))) c)
          = Some l"
      by (intro Cons.IH) auto
    with True show ?thesis by (simp add: Let_def isVowelPhone_def)
  next
    case False
    with Cons.prems have pre: "(\<exists>l\<in>set vowelClassLabels. n = Some l) \<or> (\<exists>p\<in>set rest. isVowelPhone p)"
      by auto
    show ?thesis
    proof (cases n)
      case None
      with False Cons.IH[OF pre, of c] show ?thesis by (simp add: Let_def isVowelPhone_def)
    next
      case (Some a)
      with False Cons.IH[OF pre, of "c @ [normalizePhone phone]"] show ?thesis
        by (simp add: Let_def isVowelPhone_def)
    qed
  qed
qed

lemma extract_loop_origin:
  "fst (extract_loop s n c) = Some l \<Longrightarrow> n = Some l \<or> l \<in> set vowelClassLabels"
proof (induction s arbitrary: n c)
  case Nil
  then show ?case by simp
next
  case (Cons phone rest)
  show ?case
  proof (cases "isVowelPhone phone")
    case True
    let ?v = "orElse (map_of VOWEL_CLASSES (normalizePhone phone)) (normalizePhone phone)"
    from True have lab: "?v \<in> set vowelClassLabels"
      using class_of_vowel_is_label by (auto simp: list_all_iff isVowelPhone_def)
    from Cons.prems True have "fst (extract_loop rest (Some ?v) c) = Some l"
      by (simp add: Let_def isVowelPhone_def)
    from Cons.IH[OF this] lab show ?thesis by auto
  next
    case False
    show ?thesis
    proof (cases n)
      case None
      with Cons.prems False have "fst (extract_loop rest n c) = Some l"
        by (simp add: Let_def isVowelPhone_def)
      from Cons.IH[OF this] show ?thesis .
    next
      case (Some a)
      with Cons.prems False have "fst (extract_loop rest n (c @ [normalizePhone phone])) = Some l"
        by (simp add: Let_def isVowelPhone_def)
      from Cons.IH[OF this] show ?thesis .
    qed
  qed
qed

lemma getRhymeKey_known:
  assumes shape: "\<forall>s\<in>set (tl syllables). \<exists>p\<in>set s. isVowelPhone p"
    and key: "getRhymeKey syllables stress = Some k"
  shows "knownNucleus (fst k)"
proof -
  from key have ne: "syllables \<noteq> []" by (auto simp: getRhymeKey_def)
  define ci where "ci = max 0 (min (case stress of Some s \<Rightarrow> s | None \<Rightarrow> length syllables - 1)
                                   (length syllables - 1))"
  have "ci \<le> length syllables - 1" by (simp add: ci_def)
  moreover have "0 < length syllables" using ne by simp
  ultimately have ci_lt: "ci < length syllables" by linarith
  obtain nucleus coda where ex: "extractNucleusAndCoda (syllables ! ci) = (nucleus, coda)"
    by (cases "extractNucleusAndCoda (syllables ! ci)") auto
  obtain pn pc where pex: "extractNucleusAndCoda (syllables ! (ci - 1)) = (pn, pc)"
    by (cases "extractNucleusAndCoda (syllables ! (ci - 1))") auto
  have nuc_label: "\<And>l. nucleus = Some l \<Longrightarrow> l \<in> set vowelClassLabels"
    using extract_loop_origin[of "syllables ! ci" None "[]"] ex
    by (auto simp: extractNucleusAndCoda_def)
  show ?thesis
  proof (cases "(length coda \<le> 1 \<or> coda \<in> set weakCodeas) \<and> ci > 0 \<and> truthy pn")
    case True
    then have "syllables ! ci \<in> set (tl syllables)"
      using ci_lt ne by (cases syllables; cases ci) auto
    with shape have "\<exists>p\<in>set (syllables ! ci). isVowelPhone p" by blast
    then obtain l where l: "l \<in> set vowelClassLabels" "nucleus = Some l"
      using extract_loop_label[of None "syllables ! ci" "[]"] ex
      by (auto simp: extractNucleusAndCoda_def)
    from key True l label_plain[OF l(1)]
    have "fst k = orElse pn [] @ ''+'' @ l"
      using ex pex unfolding getRhymeKey_def ci_def[symmetric] Let_def
      by (auto simp: ne orElse_def truthy_def split: if_splits option.splits)
    with l label_plain[OF l(1)] show ?thesis
      by (simp add: knownNucleus_def finalComponent_compound del: append.simps)
  next
    case False
    from key False have "truthy nucleus \<and> fst k = orElse nucleus []"
      using ex pex unfolding getRhymeKey_def ci_def[symmetric] Let_def
      by (auto simp: ne split: if_splits)
    then obtain l where l: "nucleus = Some l" "fst k = l"
      by (cases nucleus) (auto simp: truthy_def orElse_def)
    from nuc_label[OF l(1)] label_plain l show ?thesis
      by (simp add: knownNucleus_def finalComponent_plain)
  qed
qed

lemma syllabified_key_known:
  assumes "getRhymeKey (fst (syllabify phones)) stress = Some k"
  shows "knownNucleus (fst k)"
proof -
  have "\<forall>s\<in>set (tl (fst (syllabify phones))). \<exists>p\<in>set s. isVowelPhone p"
  proof
    fix s assume s: "s \<in> set (tl (fst (syllabify phones)))"
    then have "s \<in> set (fst (syllabify phones))" by (cases "fst (syllabify phones)") auto
    with syllabify_syllables[of phones] have "s \<noteq> []" by blast
    moreover from syllabify_syllables[of phones] s have "isVowelPhone (hd s)" by blast
    ultimately show "\<exists>p\<in>set s. isVowelPhone p" by (cases s) auto
  qed
  from getRhymeKey_known[OF this assms] show ?thesis .
qed

text \<open>
  Claim C3. For two rhyme keys with nucleus labels of the data model, \<open>rhymeDistance\<close>
  is 0.7 times the nucleus distance plus 0.3 times the coda distance of the
  specification: the nucleus distance is 0 for equal labels, 0.05 for equal final
  components, 0.25 for final components of one vowel family and 0.6 otherwise; the coda
  distance is 0 for equal codas, 0.6 when exactly one coda is empty, and otherwise 0.35
  times the sum of the mismatch count and half the difference of the lengths, at most 1.
\<close>

theorem rhymeDistance_formula:
  assumes "knownNucleus (fst k1)" "knownNucleus (fst k2)"
  shows "rhymeDistance k1 k2 = spec_rhymeDistance k1 k2"
  by (simp add: rhymeDistance_def spec_rhymeDistance_def nucleusDistance_spec[OF assms]
      codaDistance_spec)


text \<open>
  C3 on the key of R AH N IH NG, as \<open>getRhymeKey\<close> returns it, against the key with
  nucleus I and coda NG.
\<close>

theorem rhymeDistance_formula_witness:
  "knownNucleus ''UH+I'' \<and> knownNucleus ''I''
   \<and> getRhymeKey (fst (syllabify [''R'', ''AH'', ''N'', ''IH'', ''NG'']))
                   (snd (syllabify [''R'', ''AH'', ''N'', ''IH'', ''NG'']))
       = Some (''UH+I'', [''N'', ''NG''])
   \<and> rhymeDistance (''UH+I'', [''N'', ''NG'']) (''I'', [''NG'']) = 7 / 80
   \<and> spec_rhymeDistance (''UH+I'', [''N'', ''NG'']) (''I'', [''NG'']) = 7 / 80"
proof -
  have h1: "knownNucleus (fst (''UH+I'', [''N'', ''NG'']))" by code_simp
  have h2: "knownNucleus (fst (''I'', [''NG'']))" by code_simp
  have k: "getRhymeKey (fst (syllabify [''R'', ''AH'', ''N'', ''IH'', ''NG'']))
                   (snd (syllabify [''R'', ''AH'', ''N'', ''IH'', ''NG'']))
       = Some (''UH+I'', [''N'', ''NG''])" by code_simp
  have v: "spec_rhymeDistance (''UH+I'', [''N'', ''NG'']) (''I'', [''NG'']) = 7 / 80"
    by code_simp
  from rhymeDistance_formula[OF h1 h2] v h1 h2 k show ?thesis by simp
qed

section \<open>Rhyme groups\<close>

subsection \<open>Repeated words\<close>

lemma min_inner_ext:
  "min_inner ws thr i js (grp, a) = (grp', a') \<Longrightarrow>
   \<exists>ext. grp' = grp @ ext
       \<and> (\<forall>k\<in>set ext. toLowerCase (mw_text (ws ! k)) \<noteq> toLowerCase (mw_text (ws ! i)))"
proof (induction js arbitrary: grp a)
  case Nil
  then show ?case by simp
next
  case (Cons j js)
  show ?case
  proof (cases "j \<notin> a \<and> scoreRhyme (mw_tail (ws ! i)) (mw_tail (ws ! j)) \<ge> thr
                \<and> toLowerCase (mw_text (ws ! i)) \<noteq> toLowerCase (mw_text (ws ! j))")
    case True
    with Cons.prems have "min_inner ws thr i js (grp @ [j], insert j a) = (grp', a')"
      by simp
    from Cons.IH[OF this] obtain ext where
      "grp' = (grp @ [j]) @ ext"
      "\<forall>k\<in>set ext. toLowerCase (mw_text (ws ! k)) \<noteq> toLowerCase (mw_text (ws ! i))"
      by blast
    with True have "grp' = grp @ (j # ext)
       \<and> (\<forall>k\<in>set (j # ext). toLowerCase (mw_text (ws ! k)) \<noteq> toLowerCase (mw_text (ws ! i)))"
      by auto
    then show ?thesis by blast
  next
    case False
    with Cons.prems have "min_inner ws thr i js (grp, a) = (grp', a')"
      by (auto split: if_splits)
    from Cons.IH[OF this] show ?thesis .
  qed
qed

lemma min_outer_seed:
  assumes "\<forall>g\<in>set groups. g \<noteq> [] \<and> (\<forall>k\<in>set (tl g).
              toLowerCase (mw_text (ws ! k)) \<noteq> toLowerCase (mw_text (ws ! hd g)))"
    and "min_outer ws thr is (groups, a) = (groups', a')"
  shows "\<forall>g\<in>set groups'. g \<noteq> [] \<and> (\<forall>k\<in>set (tl g).
              toLowerCase (mw_text (ws ! k)) \<noteq> toLowerCase (mw_text (ws ! hd g)))"
  using assms
proof (induction "is" arbitrary: groups a)
  case Nil
  then show ?case by simp
next
  case (Cons i "is")
  show ?case
  proof (cases "i \<in> a")
    case True
    with Cons.prems(2) have "min_outer ws thr is (groups, a) = (groups', a')" by simp
    from Cons.IH[OF Cons.prems(1) this] show ?thesis .
  next
    case False
    obtain grp a1 where inner:
      "min_inner ws thr i [Suc i ..< length ws] ([i], insert i a) = (grp, a1)"
      by (cases "min_inner ws thr i [Suc i ..< length ws] ([i], insert i a)") auto
    from min_inner_ext[OF inner] obtain ext where ext: "grp = [i] @ ext"
      "\<forall>k\<in>set ext. toLowerCase (mw_text (ws ! k)) \<noteq> toLowerCase (mw_text (ws ! i))"
      by blast
    let ?groups1 = "if length grp \<ge> 2 then groups @ [grp] else groups"
    have g1: "\<forall>g\<in>set ?groups1. g \<noteq> [] \<and> (\<forall>k\<in>set (tl g).
              toLowerCase (mw_text (ws ! k)) \<noteq> toLowerCase (mw_text (ws ! hd g)))"
      using Cons.prems(1) ext by auto
    from Cons.prems(2) False inner
    have "min_outer ws thr is (?groups1, a1) = (groups', a')" by simp
    from Cons.IH[OF g1 this] show ?thesis .
  qed
qed

lemma min_groups_seed:
  "\<forall>g\<in>set (min_groups ws thr). g \<noteq> [] \<and> (\<forall>k\<in>set (tl g).
      toLowerCase (mw_text (ws ! k)) \<noteq> toLowerCase (mw_text (ws ! hd g)))"
proof -
  obtain gs a where o: "min_outer ws thr [0 ..< length ws] ([], {}) = (gs, a)"
    by (cases "min_outer ws thr [0 ..< length ws] ([], {})") auto
  have "\<forall>g\<in>set ([] :: nat list list). g \<noteq> [] \<and> (\<forall>k\<in>set (tl g).
      toLowerCase (mw_text (ws ! k)) \<noteq> toLowerCase (mw_text (ws ! hd g)))" by simp
  from min_outer_seed[OF this o] o show ?thesis by (simp add: min_groups_def)
qed

lemma group_inner_ext:
  "group_inner st ws sps i js (grp, u) = (grp', u') \<Longrightarrow>
   \<exists>ext. grp' = grp @ ext
       \<and> (\<forall>k\<in>set ext. wd_lower (ws ! sp_wordIndex (sps ! k))
                         \<noteq> wd_lower (ws ! sp_wordIndex (sps ! i)))"
proof (induction js arbitrary: grp u)
  case Nil
  then show ?case by simp
next
  case (Cons j js)
  let ?same = "wd_lower (ws ! sp_wordIndex (sps ! i)) = wd_lower (ws ! sp_wordIndex (sps ! j))"
  let ?join = "multiMatch (sps ! i) (sps ! j)
               \<or> rhymeDistance (sp_key (sps ! i)) (sp_key (sps ! j))
                    \<le> pairThreshold st ws (sps ! i) (sps ! j)"
  show ?case
  proof (cases "j \<notin> u \<and> \<not> ?same \<and> ?join")
    case True
    with Cons.prems have "group_inner st ws sps i js (grp @ [j], insert j u) = (grp', u')"
      by (auto split: if_splits)
    from Cons.IH[OF this] obtain ext where
      "grp' = (grp @ [j]) @ ext"
      "\<forall>k\<in>set ext. wd_lower (ws ! sp_wordIndex (sps ! k)) \<noteq> wd_lower (ws ! sp_wordIndex (sps ! i))"
      by blast
    with True have "grp' = grp @ (j # ext)
       \<and> (\<forall>k\<in>set (j # ext). wd_lower (ws ! sp_wordIndex (sps ! k))
                              \<noteq> wd_lower (ws ! sp_wordIndex (sps ! i)))"
      by auto
    then show ?thesis by blast
  next
    case False
    with Cons.prems have "group_inner st ws sps i js (grp, u) = (grp', u')"
      by (auto split: if_splits)
    from Cons.IH[OF this] show ?thesis .
  qed
qed

lemma group_outer_seed:
  assumes "\<forall>g\<in>set groups. g \<noteq> [] \<and> (\<forall>k\<in>set (tl g).
              wd_lower (ws ! sp_wordIndex (sps ! k)) \<noteq> wd_lower (ws ! sp_wordIndex (sps ! hd g)))"
    and "group_outer st ws sps is (groups, u) = (groups', u')"
  shows "\<forall>g\<in>set groups'. g \<noteq> [] \<and> (\<forall>k\<in>set (tl g).
              wd_lower (ws ! sp_wordIndex (sps ! k)) \<noteq> wd_lower (ws ! sp_wordIndex (sps ! hd g)))"
  using assms
proof (induction "is" arbitrary: groups u)
  case Nil
  then show ?case by simp
next
  case (Cons i "is")
  show ?case
  proof (cases "i \<in> u")
    case True
    with Cons.prems(2) have "group_outer st ws sps is (groups, u) = (groups', u')" by simp
    from Cons.IH[OF Cons.prems(1) this] show ?thesis .
  next
    case False
    obtain grp u1 where inner:
      "group_inner st ws sps i [Suc i ..< length sps] ([i], insert i u) = (grp, u1)"
      by (cases "group_inner st ws sps i [Suc i ..< length sps] ([i], insert i u)") auto
    from group_inner_ext[OF inner] obtain ext where ext: "grp = [i] @ ext"
      "\<forall>k\<in>set ext. wd_lower (ws ! sp_wordIndex (sps ! k)) \<noteq> wd_lower (ws ! sp_wordIndex (sps ! i))"
      by blast
    let ?groups1 = "if length grp \<ge> 2 then groups @ [grp] else groups"
    have g1: "\<forall>g\<in>set ?groups1. g \<noteq> [] \<and> (\<forall>k\<in>set (tl g).
              wd_lower (ws ! sp_wordIndex (sps ! k)) \<noteq> wd_lower (ws ! sp_wordIndex (sps ! hd g)))"
      using Cons.prems(1) ext by auto
    from Cons.prems(2) False inner
    have "group_outer st ws sps is (?groups1, u1) = (groups', u')" by simp
    from Cons.IH[OF g1 this] show ?thesis .
  qed
qed

lemma groupRhymes_seed:
  "\<forall>g\<in>set (groupRhymes st ws sps). g \<noteq> [] \<and> (\<forall>k\<in>set (tl g).
      wd_lower (ws ! sp_wordIndex (sps ! k)) \<noteq> wd_lower (ws ! sp_wordIndex (sps ! hd g)))"
proof -
  obtain gs u where o: "group_outer st ws sps [0 ..< length sps] ([], {}) = (gs, u)"
    by (cases "group_outer st ws sps [0 ..< length sps] ([], {})") auto
  have "\<forall>g\<in>set ([] :: nat list list). g \<noteq> [] \<and> (\<forall>k\<in>set (tl g).
      wd_lower (ws ! sp_wordIndex (sps ! k)) \<noteq> wd_lower (ws ! sp_wordIndex (sps ! hd g)))" by simp
  from group_outer_seed[OF this o] o show ?thesis by (simp add: groupRhymes_def)
qed

text \<open>
  Claim C1, as amended. In every rhyme group, no member has the normalised text of the
  group's first member, the seed the group was built from: in the groups of the minimal
  engine's \<open>analyzeText\<close>, in the groups the grouping loop of \<open>analyze\<close> builds from any
  words and spans, and so in the groups of the result of \<open>analyze\<close>. Two later members of
  a group are not compared with each other.
\<close>

theorem seed_exclusion:
  "(analyzeText txt threshold = Inr r \<longrightarrow>
      (\<forall>g\<in>set (mr_groups r). g \<noteq> [] \<and> (\<forall>k\<in>set (tl g).
          toLowerCase (mw_text (mr_words r ! k))
          \<noteq> toLowerCase (mw_text (mr_words r ! hd g)))))
   \<and> (\<forall>g\<in>set (groupRhymes st ws sps). g \<noteq> [] \<and> (\<forall>k\<in>set (tl g).
          wd_lower (ws ! sp_wordIndex (sps ! k)) \<noteq> wd_lower (ws ! sp_wordIndex (sps ! hd g))))
   \<and> (\<forall>g\<in>set (rs_groups (analyze st txt)). gr_spans g \<noteq> [] \<and> (\<forall>sp\<in>set (tl (gr_spans g)).
          wd_lower (rs_words (analyze st txt) ! sp_wordIndex sp)
          \<noteq> wd_lower (rs_words (analyze st txt) ! sp_wordIndex (hd (gr_spans g)))))"
proof -
  have a: "analyzeText txt threshold = Inr r \<longrightarrow>
      (\<forall>g\<in>set (mr_groups r). g \<noteq> [] \<and> (\<forall>k\<in>set (tl g).
          toLowerCase (mw_text (mr_words r ! k))
          \<noteq> toLowerCase (mw_text (mr_words r ! hd g))))"
  proof
    assume "analyzeText txt threshold = Inr r"
    then obtain ws where "r = \<lparr> mr_words = ws, mr_groups = min_groups ws threshold \<rparr>"
      by (auto simp: analyzeText_def split: sum.splits)
    then show "\<forall>g\<in>set (mr_groups r). g \<noteq> [] \<and> (\<forall>k\<in>set (tl g).
          toLowerCase (mw_text (mr_words r ! k))
          \<noteq> toLowerCase (mw_text (mr_words r ! hd g)))"
      using min_groups_seed[of ws threshold] by simp
  qed
  have b: "\<forall>g\<in>set (groupRhymes st ws sps). g \<noteq> [] \<and> (\<forall>k\<in>set (tl g).
          wd_lower (ws ! sp_wordIndex (sps ! k)) \<noteq> wd_lower (ws ! sp_wordIndex (sps ! hd g)))"
    by (rule groupRhymes_seed)
  have c: "\<forall>g\<in>set (rs_groups (analyze st txt)). gr_spans g \<noteq> [] \<and> (\<forall>sp\<in>set (tl (gr_spans g)).
          wd_lower (rs_words (analyze st txt) ! sp_wordIndex sp)
          \<noteq> wd_lower (rs_words (analyze st txt) ! sp_wordIndex (hd (gr_spans g))))"
  proof
    fix g assume g: "g \<in> set (rs_groups (analyze st txt))"
    let ?ws = "buildWords (split [backslash, CHR ''n''] txt)"
    let ?sps = "buildSpans ?ws"
    from g obtain gi where gi: "gi \<in> set (groupRhymes st ?ws ?sps)"
      "gr_spans g = map (\<lambda>idx. ?sps ! idx) gi"
      by (auto simp: analyze_def Let_def)
    from groupRhymes_seed[of st ?ws ?sps] gi(1)
    have ne: "gi \<noteq> []" and d: "\<forall>k\<in>set (tl gi).
          wd_lower (?ws ! sp_wordIndex (?sps ! k)) \<noteq> wd_lower (?ws ! sp_wordIndex (?sps ! hd gi))"
      by blast+
    have w: "rs_words (analyze st txt) = ?ws" by (simp add: analyze_def Let_def)
    from ne gi(2) have h: "hd (gr_spans g) = ?sps ! hd gi" "tl (gr_spans g) = map (\<lambda>idx. ?sps ! idx) (tl gi)"
      by (simp_all add: hd_map map_tl)
    from ne gi(2) d show "gr_spans g \<noteq> [] \<and> (\<forall>sp\<in>set (tl (gr_spans g)).
          wd_lower (rs_words (analyze st txt) ! sp_wordIndex sp)
          \<noteq> wd_lower (rs_words (analyze st txt) ! sp_wordIndex (hd (gr_spans g))))"
      unfolding w h by auto
  qed
  from a b c show ?thesis by blast
qed

lemma two_words_groups:
  "map sp_key (buildSpans two_words) = [(''A'', [''T'']), (''A'', [''T''])]
   \<and> groupRhymes defaultSettings two_words (buildSpans two_words) = [[0, 1]]
   \<and> map sp_wordIndex (buildSpans two_words) = [0, 1]
   \<and> map wd_lower two_words = [''cat'', ''hat'']"
  by code_simp

lemma cat_hat_min_groups:
  "analyzeText cat_hat (1 / 2) = Inr cat_hat_min_result"
  by code_simp

text \<open>
  C1 as amended, on the lines "cat" and "hat": in the minimal engine, and in the grouping
  loop of the full engine on the two words with the phonemes K AE T and HH AE T.
\<close>

theorem seed_exclusion_witness:
  "analyzeText cat_hat (1 / 2) = Inr cat_hat_min_result
   \<and> mr_groups cat_hat_min_result = [[0, 1]]
   \<and> toLowerCase ''hat'' \<noteq> toLowerCase ''cat''
   \<and> groupRhymes defaultSettings two_words (buildSpans two_words) = [[0, 1]]
   \<and> wd_lower (two_words ! sp_wordIndex (buildSpans two_words ! 1))
       \<noteq> wd_lower (two_words ! sp_wordIndex (buildSpans two_words ! 0))"
proof -
  note t = seed_exclusion[of cat_hat "1 / 2" cat_hat_min_result defaultSettings two_words
                            "buildSpans two_words"]
  have g: "mr_groups cat_hat_min_result = [[0, 1]]"
    and w: "map mw_text (mr_words cat_hat_min_result) = [''cat'', ''hat'']"
    by (simp_all add: cat_hat_min_result_def)
  from t cat_hat_min_groups
  have "\<forall>g\<in>set (mr_groups cat_hat_min_result). g \<noteq> [] \<and> (\<forall>k\<in>set (tl g).
          toLowerCase (mw_text (mr_words cat_hat_min_result ! k))
          \<noteq> toLowerCase (mw_text (mr_words cat_hat_min_result ! hd g)))"
    by blast
  with g have "toLowerCase (mw_text (mr_words cat_hat_min_result ! 1))
          \<noteq> toLowerCase (mw_text (mr_words cat_hat_min_result ! 0))"
    by simp
  then have a: "toLowerCase ''hat'' \<noteq> toLowerCase ''cat''"
    by (simp add: cat_hat_min_result_def)
  from t have "\<forall>g\<in>set (groupRhymes defaultSettings two_words (buildSpans two_words)).
      g \<noteq> [] \<and> (\<forall>k\<in>set (tl g).
          wd_lower (two_words ! sp_wordIndex (buildSpans two_words ! k))
          \<noteq> wd_lower (two_words ! sp_wordIndex (buildSpans two_words ! hd g)))"
    by blast
  with two_words_groups
  have b: "wd_lower (two_words ! sp_wordIndex (buildSpans two_words ! 1))
       \<noteq> wd_lower (two_words ! sp_wordIndex (buildSpans two_words ! 0))"
    by simp
  from a b g cat_hat_min_groups two_words_groups show ?thesis by simp
qed

text \<open>
  Claim C1 as stated fails in the minimal engine on the text "cat hat hat": both
  occurrences of "hat" rhyme with the seed "cat" and join its group.
\<close>

theorem repeated_word_counterexample:
  "(case analyzeText ''cat hat hat'' (1 / 2) of
      Inr r \<Rightarrow> mr_groups r = [[0, 1, 2]]
               \<and> toLowerCase (mw_text (mr_words r ! 1)) = toLowerCase (mw_text (mr_words r ! 2))
    | Inl e \<Rightarrow> False)"
  by code_simp

subsection \<open>Words without a rhyme key\<close>

text \<open>
  No phoneme that \<open>wordToPhones\<close> returns passes the vowel test: the vowels of the
  dictionary and of the converter all carry a stress digit, which \<open>normalizePhone\<close>
  leaves in place. So no word of \<open>analyze\<close> has a rhyme key, and no analysis has a span
  or a rhyme group.
\<close>

lemma dictionary_phones:
  "list_all (\<lambda>(k, ps). list_all (\<lambda>p. \<not> isVowelPhone p) ps) CUSTOM_ARPA"
  by code_simp

lemma pattern_phones:
  "list_all (\<lambda>(pattern, ph). \<not> isVowelPhone (ph @ ''1'') \<and> \<not> isVowelPhone (ph @ ''0''))
            VOWEL_PATTERNS"
  by code_simp

lemma digraph_phones: "list_all (\<lambda>(digraph, ph). \<not> isVowelPhone ph) CONSONANT_DIGRAPHS"
  by code_simp

lemma simple_vowel_phones:
  "list_all (\<lambda>(c, ph). \<not> isVowelPhone (orElse (Some ph) ''AH'' @ ''1'')
                        \<and> \<not> isVowelPhone (orElse (Some ph) ''AH'' @ ''0'')) SIMPLE_VOWELS
   \<and> \<not> isVowelPhone (orElse None ''AH'' @ ''1'') \<and> \<not> isVowelPhone (orElse None ''AH'' @ ''0'')"
  by code_simp

lemma consonant_phones: "list_all (\<lambda>(c, ph). \<not> isVowelPhone ph) CONSONANT_MAP"
  by code_simp

lemma simple_vowel_not_vowel:
  "\<not> isVowelPhone (orElse (map_of SIMPLE_VOWELS ch) ''AH'' @ ''1'')
   \<and> \<not> isVowelPhone (orElse (map_of SIMPLE_VOWELS ch) ''AH'' @ ''0'')"
proof (cases "map_of SIMPLE_VOWELS ch")
  case None
  with simple_vowel_phones show ?thesis by simp
next
  case (Some ph)
  then have "(ch, ph) \<in> set SIMPLE_VOWELS" by (rule map_of_SomeD)
  with simple_vowel_phones Some show ?thesis by (auto simp: list_all_iff)
qed

lemma g2p_loop_no_vowel: "\<forall>p\<in>set (g2p_loop w stressed). \<not> isVowelPhone p"
proof (induction "length w" arbitrary: w stressed rule: less_induct)
  case less
  show ?case
  proof (cases w)
    case Nil
    then show ?thesis by simp
  next
    case (Cons ch cs)
    have ih: "\<And>n b. \<forall>p\<in>set (g2p_loop (drop n cs) b). \<not> isVowelPhone p"
      using less[of "drop _ cs"] Cons by simp
    have ih0: "\<And>b. \<forall>p\<in>set (g2p_loop cs b). \<not> isVowelPhone p"
      using ih[of 0] by simp
    show ?thesis
    proof (cases "find (\<lambda>(pattern, phoneme). take (length pattern) (ch # cs) = pattern)
                       VOWEL_PATTERNS")
      case (Some pp)
      obtain pattern ph where pp: "pp = (pattern, ph)" by (cases pp)
      from Some pp have "(pattern, ph) \<in> set VOWEL_PATTERNS"
        by (auto simp: find_Some_iff in_set_conv_nth)
      with pattern_phones have "\<not> isVowelPhone (ph @ ''1'') \<and> \<not> isVowelPhone (ph @ ''0'')"
        by (auto simp: list_all_iff)
      with Some pp Cons ih[of "length pattern - 1" True] show ?thesis by simp
    next
      case None
      show ?thesis
      proof (cases "find (\<lambda>(digraph, phoneme). take (length digraph) (ch # cs) = digraph)
                         CONSONANT_DIGRAPHS")
        case (Some dp)
        obtain digraph ph where dp: "dp = (digraph, ph)" by (cases dp)
        from Some dp have "(digraph, ph) \<in> set CONSONANT_DIGRAPHS"
          by (auto simp: find_Some_iff in_set_conv_nth)
        with digraph_phones have "\<not> isVowelPhone ph" by (auto simp: list_all_iff)
        with Some dp None Cons ih[of "length digraph - 1" stressed] show ?thesis by simp
      next
        case nd: None
        show ?thesis
        proof (cases "ch \<in> set ''aeiouy''")
          case True
          with None nd Cons ih0[of True] simple_vowel_not_vowel[of ch] show ?thesis
            by simp
        next
          case False
          show ?thesis
          proof (cases "map_of CONSONANT_MAP ch")
            case nc: None
            with None nd Cons False ih0[of stressed] show ?thesis by simp
          next
            case (Some ph)
            then have "(ch, ph) \<in> set CONSONANT_MAP" by (rule map_of_SomeD)
            with consonant_phones have "\<not> isVowelPhone ph" by (auto simp: list_all_iff)
            with Some None nd Cons False ih0[of stressed] show ?thesis by simp
          qed
        qed
      qed
    qed
  qed
qed

lemma g2p_dedupe_subset: "set (g2p_dedupe result phones) \<subseteq> set result \<union> set phones"
proof (induction phones arbitrary: result)
  case Nil
  then show ?case by simp
next
  case (Cons a phones)
  show ?case
  proof (cases "result = [] \<or> last result \<noteq> a \<or> isVowelPhone a")
    case True
    then have "g2p_dedupe result (a # phones) = g2p_dedupe (result @ [a]) phones" by simp
    with Cons.IH[of "result @ [a]"] show ?thesis by auto
  next
    case False
    then have "g2p_dedupe result (a # phones) = g2p_dedupe result phones" by simp
    with Cons.IH[of result] show ?thesis by auto
  qed
qed

lemma g2pHeuristic_no_vowel: "\<forall>p\<in>set (g2pHeuristic w). \<not> isVowelPhone p"
proof
  fix p assume "p \<in> set (g2pHeuristic w)"
  then have "p \<in> set (filter (\<lambda>p. p \<noteq> []) (g2p_loop (toLowerCase w) False))"
    using g2p_dedupe_subset[of "[]" "filter (\<lambda>p. p \<noteq> []) (g2p_loop (toLowerCase w) False)"]
    unfolding g2pHeuristic_def by auto
  then show "\<not> isVowelPhone p" using g2p_loop_no_vowel by auto
qed

lemma wordToPhones_no_vowel: "\<forall>p\<in>set (wordToPhones w). \<not> isVowelPhone p"
proof (cases "map_of CUSTOM_ARPA (cleanWord w)")
  case None
  then show ?thesis using g2pHeuristic_no_vowel by (simp add: wordToPhones_def)
next
  case (Some ps)
  then have "(cleanWord w, ps) \<in> set CUSTOM_ARPA" by (rule map_of_SomeD)
  with dictionary_phones have "\<forall>p\<in>set ps. \<not> isVowelPhone p" by (auto simp: list_all_iff)
  with Some show ?thesis by (simp add: wordToPhones_def)
qed

lemma syllabify_loop_vowelless:
  "\<forall>p\<in>set rest. \<not> isVowelPhone p \<Longrightarrow> syllabify_loop rest S c st = (S, c @ rest, st)"
  by (induction rest arbitrary: c) auto

lemma syllabify_vowelless:
  "\<forall>p\<in>set phones. \<not> isVowelPhone p \<Longrightarrow>
   syllabify phones = (if phones = [] then ([], None) else ([phones], Some 0))"
  by (simp add: syllabify_def syllabify_loop_vowelless)

lemma extract_loop_vowelless:
  "\<forall>p\<in>set s. \<not> isVowelPhone p \<Longrightarrow> extract_loop s None c = (None, c)"
  by (induction s) (auto simp: isVowelPhone_def Let_def)

lemma getRhymeKey_vowelless:
  "\<forall>p\<in>set phones. \<not> isVowelPhone p \<Longrightarrow>
   getRhymeKey (fst (syllabify phones)) (snd (syllabify phones)) = None"
  by (simp add: syllabify_vowelless getRhymeKey_def extractNucleusAndCoda_def
      extract_loop_vowelless truthy_def)

lemma makeWord_keyless:
  "w \<in> set (makeWord lineIndex m) \<Longrightarrow> getRhymeKey (wd_syllables w) (wd_stress w) = None"
proof -
  assume w: "w \<in> set (makeWord lineIndex m)"
  let ?ph = "wordToPhones (cleanWord (fst m))"
  obtain S t where sy: "syllabify ?ph = (S, t)" by (cases "syllabify ?ph") auto
  from w have "wd_syllables w = fst (syllabify ?ph) \<and> wd_stress w = snd (syllabify ?ph)"
    by (auto simp: makeWord_def Let_def sy split: if_splits)
  with getRhymeKey_vowelless[OF wordToPhones_no_vowel, of "cleanWord (fst m)"]
  show ?thesis by simp
qed

lemma buildWords_keyless:
  "w \<in> set (buildWords lines) \<Longrightarrow> getRhymeKey (wd_syllables w) (wd_stress w) = None"
  by (auto simp: buildWords_def dest: makeWord_keyless)

lemma buildSpans_keyless:
  assumes "\<forall>w\<in>set ws. getRhymeKey (wd_syllables w) (wd_stress w) = None"
  shows "buildSpans ws = []"
proof -
  have "\<And>i. i < length ws \<Longrightarrow> makeSpan ws i = []"
    using assms by (simp add: makeSpan_def Let_def)
  then show ?thesis by (simp add: buildSpans_def)
qed

lemma analyze_no_groups: "rs_spans (analyze st txt) = [] \<and> rs_groups (analyze st txt) = []"
proof -
  have "buildSpans (buildWords (split [backslash, CHR ''n''] txt)) = []"
    by (intro buildSpans_keyless ballI buildWords_keyless)
  then show ?thesis by (simp add: analyze_def Let_def groupRhymes_def)
qed

subsection \<open>Raising the slant threshold\<close>







end
